theory Spec2Isabelle
  imports Complex_Main
begin

section \<open>Errors raised by the program\<close>

text \<open>
  The Python raises \<open>ValueError\<close> with a formatted message in three places and lets the
  client's exceptions through. The message of a \<open>ValueError\<close> is kept as a tag with the
  values it prints. \<open>ResponseHandlingException\<close> is the client's transient failure
  (timeout, transport), the only exception the retry loop catches; every other exception
  of the client is \<open>OtherException\<close>. Floating-point numbers are modelled as reals.
\<close>

datatype value_error =
    Size_mismatch nat nat
  | Range_step_zero
  | Quantization_config_required

datatype error =
    ValueError value_error
  | ResponseHandlingException string
  | OtherException string

section \<open>Python built-ins used by the uploader\<close>

text \<open>
  \<open>range(start, stop, step)\<close>: raises \<open>ValueError\<close> on a zero step, counts upwards while
  below \<open>stop\<close> for a positive step and downwards while above it for a negative one.
\<close>

definition range3 :: "int \<Rightarrow> int \<Rightarrow> int \<Rightarrow> error + int list" where
  "range3 start stop step =
     (if step = 0 then Inl (ValueError Range_step_zero)
      else if 0 < step then
        Inr (map (\<lambda>k. start + int k * step) [0..<nat ((stop - start + step - 1) div step)])
      else
        Inr (map (\<lambda>k. start + int k * step) [0..<nat ((start - stop - step - 1) div (- step))]))"

text \<open>\<open>range(n)\<close>: the integers from 0 below \<open>n\<close>, none when \<open>n \<le> 0\<close>.\<close>

definition range1 :: "int \<Rightarrow> int list" where
  "range1 n = map int [0..<nat n]"

text \<open>
  \<open>xs[lo:hi]\<close>: a negative bound counts from the end, and both bounds are clamped to the
  list; the slice is empty when the upper bound is not above the lower one.
\<close>

definition clamp_index :: "int \<Rightarrow> int \<Rightarrow> int" where
  "clamp_index n i = (if i < 0 then max 0 (n + i) else min n i)"

definition slice :: "'a list \<Rightarrow> int \<Rightarrow> int \<Rightarrow> 'a list" where
  "slice xs lo hi =
     (let n = int (length xs); a = clamp_index n lo; b = clamp_index n hi
      in take (nat (b - a)) (drop (nat a) xs))"

section \<open>The batch uploader (uploader.py)\<close>

record UploadConfig =
  batch_size :: int
  enable_retry :: bool
  max_retries :: int
  initial_backoff :: real

text \<open>
  A point's vector is either the embedding itself or a one-entry dictionary from the
  vector name to the embedding. The payload is the dataset item, which the uploader
  never inspects.
\<close>

datatype vector_data = Named string "real list" | Unnamed "real list"

record 'a PointStruct =
  point_id :: int
  vector :: vector_data
  payload :: 'a

text \<open>
  What the uploader does to the outside world, in order: an upsert call of the client
  (collection name and points), a \<open>time.sleep\<close>, and the entry into
  \<open>_upload_with_retry\<close> (with its batch number). Console output is not modelled.
\<close>

datatype 'a event =
    Upsert string "'a PointStruct list"
  | Sleep real
  | Enter_upload_with_retry int

text \<open>
  The remote service is a script: the outcome of the k-th upsert call the client issues
  (counting from 0), \<open>None\<close> for success, as a mock's list of side effects gives it.
\<close>

type_synonym remote = "nat \<Rightarrow> error option"

fun upserts :: "'a event list \<Rightarrow> (string \<times> 'a PointStruct list) list" where
  "upserts [] = []"
| "upserts (Upsert name pts # es) = (name, pts) # upserts es"
| "upserts (e # es) = upserts es"

fun sleeps :: "'a event list \<Rightarrow> real list" where
  "sleeps [] = []"
| "sleeps (Sleep t # es) = t # sleeps es"
| "sleeps (e # es) = sleeps es"

fun retry_entries :: "'a event list \<Rightarrow> int list" where
  "retry_entries [] = []"
| "retry_entries (Enter_upload_with_retry b # es) = b # retry_entries es"
| "retry_entries (e # es) = retry_entries es"

definition client_upsert ::
  "remote \<Rightarrow> string \<Rightarrow> 'a PointStruct list \<Rightarrow> 'a event list \<Rightarrow> error option \<times> 'a event list" where
  "client_upsert remote collection_name points tr =
     (remote (length (upserts tr)), tr @ [Upsert collection_name points])"

text \<open>\<open>_prepare_points\<close>: one point per zipped entry, numbered from \<open>start_id\<close>.\<close>

definition prepare_points ::
  "'a list \<Rightarrow> real list list \<Rightarrow> int \<Rightarrow> bool \<Rightarrow> string \<Rightarrow> 'a PointStruct list" where
  "prepare_points batch_dataset batch_embeddings start_id named_vector vector_name =
     map (\<lambda>(idx, (item, embedding)).
            \<lparr> point_id = start_id + int idx,
              vector = (if named_vector then Named vector_name embedding else Unnamed embedding),
              payload = item \<rparr>)
         (enumerate 0 (zip batch_dataset batch_embeddings))"

text \<open>
  The loop of \<open>_upload_with_retry\<close> over the attempts still to make. A transient failure
  before the last attempt sleeps \<open>initial_backoff * (attempt + 1)\<close> and goes on; on the
  last attempt it is raised again. Any other exception leaves the loop at once. A loop
  that runs out of attempts returns 0.
\<close>

fun retry_loop ::
  "UploadConfig \<Rightarrow> remote \<Rightarrow> string \<Rightarrow> 'a PointStruct list \<Rightarrow> int list \<Rightarrow> 'a event list
     \<Rightarrow> (error + nat) \<times> 'a event list" where
  "retry_loop cfg remote collection_name points [] tr = (Inr 0, tr)"
| "retry_loop cfg remote collection_name points (attempt # rest) tr =
     (case client_upsert remote collection_name points tr of
        (None, tr1) \<Rightarrow> (Inr (length points), tr1)
      | (Some (ResponseHandlingException m), tr1) \<Rightarrow>
          if attempt < max_retries cfg - 1
          then retry_loop cfg remote collection_name points rest
                 (tr1 @ [Sleep (initial_backoff cfg * of_int (attempt + 1))])
          else (Inl (ResponseHandlingException m), tr1)
      | (Some e, tr1) \<Rightarrow> (Inl e, tr1))"

definition upload_with_retry ::
  "UploadConfig \<Rightarrow> remote \<Rightarrow> string \<Rightarrow> 'a PointStruct list \<Rightarrow> int \<Rightarrow> 'a event list
     \<Rightarrow> (error + nat) \<times> 'a event list" where
  "upload_with_retry cfg remote collection_name points batch_num tr =
     retry_loop cfg remote collection_name points (range1 (max_retries cfg))
       (tr @ [Enter_upload_with_retry batch_num])"

text \<open>
  The loop of \<open>upload_batch\<close> over the offsets still to upload, with the running total.
  An exception of the batch's upload ends the whole call.
\<close>

fun upload_loop ::
  "UploadConfig \<Rightarrow> remote \<Rightarrow> string \<Rightarrow> 'a list \<Rightarrow> real list list \<Rightarrow> bool \<Rightarrow> string
     \<Rightarrow> int list \<Rightarrow> nat \<Rightarrow> 'a event list \<Rightarrow> (error + nat) \<times> 'a event list" where
  "upload_loop cfg remote collection_name dataset embeddings named_vector vector_name
     [] total_uploaded tr = (Inr total_uploaded, tr)"
| "upload_loop cfg remote collection_name dataset embeddings named_vector vector_name
     (i # rest) total_uploaded tr =
     (let points = prepare_points (slice dataset i (i + batch_size cfg))
                     (slice embeddings i (i + batch_size cfg)) i named_vector vector_name
      in if enable_retry cfg then
           (case upload_with_retry cfg remote collection_name points (i div batch_size cfg) tr of
              (Inl e, tr1) \<Rightarrow> (Inl e, tr1)
            | (Inr uploaded, tr1) \<Rightarrow>
                upload_loop cfg remote collection_name dataset embeddings named_vector vector_name
                  rest (total_uploaded + uploaded) tr1)
         else
           (case client_upsert remote collection_name points tr of
              (Some e, tr1) \<Rightarrow> (Inl e, tr1)
            | (None, tr1) \<Rightarrow>
                upload_loop cfg remote collection_name dataset embeddings named_vector vector_name
                  rest (total_uploaded + length points) tr1))"

text \<open>
  \<open>upload_batch\<close>: the size check comes first, then the offsets
  \<open>range(0, len(dataset), batch_size)\<close>, then the loop. The flag \<open>show_progress\<close> only
  prints and is left out.
\<close>

definition upload_batch ::
  "UploadConfig \<Rightarrow> remote \<Rightarrow> string \<Rightarrow> 'a list \<Rightarrow> real list list \<Rightarrow> bool \<Rightarrow> string
     \<Rightarrow> 'a event list \<Rightarrow> (error + nat) \<times> 'a event list" where
  "upload_batch cfg remote collection_name dataset embeddings named_vector vector_name tr =
     (if length dataset \<noteq> length embeddings then
        (Inl (ValueError (Size_mismatch (length dataset) (length embeddings))), tr)
      else
        (case range3 0 (int (length dataset)) (batch_size cfg) of
           Inl e \<Rightarrow> (Inl e, tr)
         | Inr offsets \<Rightarrow>
             upload_loop cfg remote collection_name dataset embeddings named_vector vector_name
               offsets 0 tr))"

section \<open>The latency benchmark (benchmarking.py)\<close>

record BenchmarkConfig =
  warmup_enabled :: bool
  limit :: int
  oversampling_factors :: "real list"
  test_queries :: "string list"

record QuantizationSearchParams =
  rescore :: bool
  oversampling :: real

record SearchParams =
  quantization :: QuantizationSearchParams

text \<open>
  The keyword arguments of one \<open>client.query_points\<close> call. A key the code leaves out of
  the dictionary (\<open>using\<close>, \<open>search_params\<close>) is \<open>None\<close>.
\<close>

record query_params =
  q_collection_name :: string
  q_query :: "real list"
  q_limit :: int
  q_using :: "string option"
  q_search_params :: "SearchParams option"

text \<open>
  What a benchmark run does to the outside world, in order: a query call of the client
  and a reading of the clock (\<open>time.time()\<close>). The environment gives the embedding of a
  text, the outcome of the k-th query call (an exception or the identifiers of the points
  returned) and the value of the k-th clock reading, each counted from 0.
\<close>

datatype bench_event = Query_points query_params | Time_time

record bench_env =
  encode_text :: "string \<Rightarrow> real list"
  query_outcome :: "nat \<Rightarrow> error + int list"
  clock :: "nat \<Rightarrow> real"

fun queries :: "bench_event list \<Rightarrow> query_params list" where
  "queries [] = []"
| "queries (Query_points p # es) = p # queries es"
| "queries (Time_time # es) = queries es"

fun time_reads :: "bench_event list \<Rightarrow> nat" where
  "time_reads [] = 0"
| "time_reads (Time_time # es) = Suc (time_reads es)"
| "time_reads (Query_points p # es) = time_reads es"

definition client_query_points ::
  "bench_env \<Rightarrow> query_params \<Rightarrow> bench_event list \<Rightarrow> (error + int list) \<times> bench_event list" where
  "client_query_points env params tr =
     (query_outcome env (length (queries tr)), tr @ [Query_points params])"

definition time_time :: "bench_env \<Rightarrow> bench_event list \<Rightarrow> real \<times> bench_event list" where
  "time_time env tr = (clock env (time_reads tr), tr @ [Time_time])"

text \<open>
  \<open>if using:\<close> holds for a non-empty string only: \<open>None\<close> and the empty string leave the
  key out.
\<close>

definition truthy :: "string option \<Rightarrow> string option" where
  "truthy u = (case u of None \<Rightarrow> None | Some s \<Rightarrow> if s = [] then None else Some s)"

text \<open>
  \<open>warmup\<close>: nothing when warmup is disabled, else one query whose response is dropped.
\<close>

definition warmup ::
  "BenchmarkConfig \<Rightarrow> bench_env \<Rightarrow> string \<Rightarrow> string option \<Rightarrow> bench_event list
     \<Rightarrow> error option \<times> bench_event list" where
  "warmup cfg env collection_name using tr =
     (if \<not> warmup_enabled cfg then (None, tr)
      else
        (let warmup_vector = encode_text env ''warmup query'';
             params = \<lparr> q_collection_name = collection_name, q_query = warmup_vector,
                        q_limit = limit cfg, q_using = truthy using, q_search_params = None \<rparr>
         in case client_query_points env params tr of
              (Inl e, tr1) \<Rightarrow> (Some e, tr1)
            | (Inr response, tr1) \<Rightarrow> (None, tr1)))"

text \<open>
  The loop of \<open>measure_search_latency\<close> over the test queries still to run, with the
  latencies recorded so far. A \<open>SearchParams\<close> object is always true in a condition, so
  \<open>search_params\<close> is passed on whenever it is given.
\<close>

fun latency_loop ::
  "BenchmarkConfig \<Rightarrow> bench_env \<Rightarrow> string \<Rightarrow> string option \<Rightarrow> SearchParams option
     \<Rightarrow> string list \<Rightarrow> real list \<Rightarrow> bench_event list \<Rightarrow> (error + real list) \<times> bench_event list" where
  "latency_loop cfg env collection_name using search_params [] latencies tr = (Inr latencies, tr)"
| "latency_loop cfg env collection_name using search_params (query # rest) latencies tr =
     (let query_vector = encode_text env query;
          (start_time, tr1) = time_time env tr;
          params = \<lparr> q_collection_name = collection_name, q_query = query_vector,
                     q_limit = limit cfg, q_using = truthy using,
                     q_search_params = search_params \<rparr>
      in case client_query_points env params tr1 of
           (Inl e, tr2) \<Rightarrow> (Inl e, tr2)
         | (Inr response, tr2) \<Rightarrow>
             (let (end_time, tr3) = time_time env tr2;
                  latency = (end_time - start_time) * 1000
              in latency_loop cfg env collection_name using search_params rest
                   (latencies @ [latency]) tr3))"

record metrics =
  avg :: real
  p50 :: real
  p90 :: real
  p95 :: real
  p99 :: real
  p99_5 :: real
  p99_9 :: real

text \<open>
  Modelled from the spec: numpy's \<open>mean\<close> and \<open>percentile\<close> are not part of the repository.
  The spec asks for linear interpolation between ranks: on the sorted sample of size n the
  percentile q is read at the rank \<open>(n - 1) * q / 100\<close>, between the two neighbouring
  values. On an empty sample, or for q outside \<open>[0, 100]\<close>, numpy gives no number (nan
  with a warning, or an exception, depending on its version): \<open>None\<close>.
\<close>

definition np_mean :: "real list \<Rightarrow> real option" where
  "np_mean xs = (if xs = [] then None else Some (sum_list xs / real (length xs)))"

definition np_percentile :: "real list \<Rightarrow> real \<Rightarrow> real option" where
  "np_percentile xs q =
     (if xs = [] \<or> q < 0 \<or> 100 < q then None
      else
        (let s = sort xs;
             h = real (length xs - 1) * q / 100;
             i = nat \<lfloor>h\<rfloor>;
             f = h - real i
         in Some (if i + 1 < length xs then s ! i + f * (s ! (i + 1) - s ! i) else s ! i)))"

text \<open>\<open>_calculate_metrics\<close>: the mean and the six percentiles of the latencies.\<close>

definition calculate_metrics :: "real list \<Rightarrow> metrics option" where
  "calculate_metrics latencies =
     Option.bind (np_mean latencies) (\<lambda>m.
     Option.bind (np_percentile latencies 50) (\<lambda>v50.
     Option.bind (np_percentile latencies 90) (\<lambda>v90.
     Option.bind (np_percentile latencies 95) (\<lambda>v95.
     Option.bind (np_percentile latencies 99) (\<lambda>v99.
     Option.bind (np_percentile latencies 99.5) (\<lambda>v995.
     Option.bind (np_percentile latencies 99.9) (\<lambda>v999.
       Some \<lparr> avg = m, p50 = v50, p90 = v90, p95 = v95, p99 = v99,
              p99_5 = v995, p99_9 = v999 \<rparr>)))))))"

text \<open>
  \<open>measure_search_latency\<close>: the configured queries when none are given, the warmup, the
  loop, the reduction. The label and the printing of the metrics are left out.
\<close>

definition measure_search_latency ::
  "BenchmarkConfig \<Rightarrow> bench_env \<Rightarrow> string \<Rightarrow> string list option \<Rightarrow> string option
     \<Rightarrow> SearchParams option \<Rightarrow> bench_event list
     \<Rightarrow> (error + metrics option) \<times> bench_event list" where
  "measure_search_latency cfg env collection_name queries_arg using search_params tr =
     (let qs = (case queries_arg of None \<Rightarrow> test_queries cfg | Some qs \<Rightarrow> qs)
      in case warmup cfg env collection_name using tr of
           (Some e, tr1) \<Rightarrow> (Inl e, tr1)
         | (None, tr1) \<Rightarrow>
             (case latency_loop cfg env collection_name using search_params qs [] tr1 of
                (Inl e, tr2) \<Rightarrow> (Inl e, tr2)
              | (Inr latencies, tr2) \<Rightarrow> (Inr (calculate_metrics latencies), tr2)))"

text \<open>
  \<open>benchmark_quantization\<close>: one call of \<open>measure_search_latency\<close> without search
  parameters, then a loop of its own with rescoring at oversampling 3.0, then the
  dictionary of the two results.
\<close>

fun rescoring_loop ::
  "BenchmarkConfig \<Rightarrow> bench_env \<Rightarrow> string \<Rightarrow> string list \<Rightarrow> real list \<Rightarrow> bench_event list
     \<Rightarrow> (error + real list) \<times> bench_event list" where
  "rescoring_loop cfg env collection_name [] rescoring_latencies tr = (Inr rescoring_latencies, tr)"
| "rescoring_loop cfg env collection_name (query # rest) rescoring_latencies tr =
     (let query_vector = encode_text env query;
          (start_time, tr1) = time_time env tr
      in case client_query_points env
                \<lparr> q_collection_name = collection_name, q_query = query_vector,
                  q_limit = limit cfg, q_using = None,
                  q_search_params =
                    Some \<lparr> quantization = \<lparr> rescore = True, oversampling = 3 \<rparr> \<rparr> \<rparr> tr1 of
           (Inl e, tr2) \<Rightarrow> (Inl e, tr2)
         | (Inr response, tr2) \<Rightarrow>
             (let (end_time, tr3) = time_time env tr2;
                  latency = (end_time - start_time) * 1000
              in rescoring_loop cfg env collection_name rest (rescoring_latencies @ [latency]) tr3))"

definition benchmark_quantization ::
  "BenchmarkConfig \<Rightarrow> bench_env \<Rightarrow> string \<Rightarrow> string list option \<Rightarrow> bench_event list
     \<Rightarrow> (error + (string \<rightharpoonup> metrics option)) \<times> bench_event list" where
  "benchmark_quantization cfg env collection_name queries_arg tr =
     (let qs = (case queries_arg of None \<Rightarrow> test_queries cfg | Some qs \<Rightarrow> qs)
      in case measure_search_latency cfg env collection_name (Some qs) None None tr of
           (Inl e, tr1) \<Rightarrow> (Inl e, tr1)
         | (Inr no_rescoring_metrics, tr1) \<Rightarrow>
             (case rescoring_loop cfg env collection_name qs [] tr1 of
                (Inl e, tr2) \<Rightarrow> (Inl e, tr2)
              | (Inr rescoring_latencies, tr2) \<Rightarrow>
                  (Inr [''no_rescoring'' \<mapsto> no_rescoring_metrics,
                        ''with_rescoring'' \<mapsto> calculate_metrics rescoring_latencies], tr2)))"

text \<open>
  The accuracy of one query in \<open>measure_accuracy_retention\<close>, from the identifiers of the
  baseline points and of the quantized points as the two responses list them.
\<close>

definition accuracy :: "int list \<Rightarrow> int list \<Rightarrow> real" where
  "accuracy baseline_points quantized_points =
     (let baseline_ids = set baseline_points;
          quantized_ids = set quantized_points;
          overlap = card (baseline_ids \<inter> quantized_ids)
      in if baseline_ids \<noteq> {} then real overlap / real (card baseline_ids) else 0)"

section \<open>The collection manager (qdrant_manager.py)\<close>

datatype Distance = COSINE | EUCLID | DOT | MANHATTAN

record CollectionConfig =
  distance :: Distance
  on_disk :: bool
  timeout :: int

record EmbeddingConfig =
  model_name :: string
  vector_size :: int

record VectorParams =
  vp_size :: int
  vp_distance :: Distance
  vp_on_disk :: "bool option"

text \<open>
  The arguments of \<open>client.create_collection\<close>: one vector configuration or a dictionary
  of named ones, the sparse vectors (name and the index's \<open>on_disk\<close> flag) when given, the
  quantization configuration when given. The quantization configuration is opaque.
\<close>

datatype vectors_config = Single VectorParams | Named_config "(string \<times> VectorParams) list"

record 'q create_call =
  cc_collection_name :: string
  cc_vectors_config :: vectors_config
  cc_sparse_vectors_config :: "(string \<times> bool) list option"
  cc_quantization_config :: "'q option"

text \<open>
  The service holds the collections by name and the calls it received, in order. The
  client's calls are taken to succeed; \<open>create_collection\<close> on an existing name is never
  reached through \<open>recreate_collection\<close>, which deletes first.
\<close>

datatype 'q manager_event =
    Collection_exists string
  | Delete_collection string
  | Create_collection "'q create_call"

record 'q service =
  collections :: "string \<rightharpoonup> 'q create_call"
  calls :: "'q manager_event list"

record manager =
  collection_config :: CollectionConfig
  embedding_config :: EmbeddingConfig

definition client_collection_exists :: "string \<Rightarrow> 'q service \<Rightarrow> bool \<times> 'q service" where
  "client_collection_exists name w =
     (collections w name \<noteq> None, w\<lparr>calls := calls w @ [Collection_exists name]\<rparr>)"

definition client_delete_collection :: "string \<Rightarrow> 'q service \<Rightarrow> 'q service" where
  "client_delete_collection name w =
     w\<lparr>collections := (collections w)(name := None), calls := calls w @ [Delete_collection name]\<rparr>"

definition client_create_collection :: "'q create_call \<Rightarrow> 'q service \<Rightarrow> 'q service" where
  "client_create_collection c w =
     w\<lparr>collections := (collections w)(cc_collection_name c \<mapsto> c),
       calls := calls w @ [Create_collection c]\<rparr>"

definition delete_collection :: "string \<Rightarrow> 'q service \<Rightarrow> 'q service" where
  "delete_collection collection_name w =
     (case client_collection_exists collection_name w of
        (True, w1) \<Rightarrow> client_delete_collection collection_name w1
      | (False, w1) \<Rightarrow> w1)"

definition create_hybrid_collection :: "manager \<Rightarrow> string \<Rightarrow> 'q service \<Rightarrow> 'q service" where
  "create_hybrid_collection mgr collection_name w =
     client_create_collection
       \<lparr> cc_collection_name = collection_name,
         cc_vectors_config =
           Named_config [(''dense'',
             \<lparr> vp_size = vector_size (embedding_config mgr),
               vp_distance = distance (collection_config mgr), vp_on_disk = None \<rparr>)],
         cc_sparse_vectors_config = Some [(''sparse'', False)],
         cc_quantization_config = None \<rparr> w"

definition create_standard_collection :: "manager \<Rightarrow> string \<Rightarrow> 'q service \<Rightarrow> 'q service" where
  "create_standard_collection mgr collection_name w =
     client_create_collection
       \<lparr> cc_collection_name = collection_name,
         cc_vectors_config =
           Single \<lparr> vp_size = vector_size (embedding_config mgr),
                    vp_distance = distance (collection_config mgr),
                    vp_on_disk = Some (on_disk (collection_config mgr)) \<rparr>,
         cc_sparse_vectors_config = None,
         cc_quantization_config = None \<rparr> w"

definition create_quantized_collection ::
  "manager \<Rightarrow> string \<Rightarrow> 'q \<Rightarrow> 'q service \<Rightarrow> 'q service" where
  "create_quantized_collection mgr collection_name quantization_config w =
     client_create_collection
       \<lparr> cc_collection_name = collection_name,
         cc_vectors_config =
           Single \<lparr> vp_size = vector_size (embedding_config mgr),
                    vp_distance = distance (collection_config mgr),
                    vp_on_disk = Some True \<rparr>,
         cc_sparse_vectors_config = None,
         cc_quantization_config = Some quantization_config \<rparr> w"

text \<open>
  \<open>recreate_collection\<close>: the deletion is the first statement; the check of the
  quantization configuration comes after it, in the branch of the quantized kind.
\<close>

definition recreate_collection ::
  "manager \<Rightarrow> string \<Rightarrow> string \<Rightarrow> 'q option \<Rightarrow> 'q service \<Rightarrow> error option \<times> 'q service" where
  "recreate_collection mgr collection_name collection_type quantization_config w =
     (let w1 = delete_collection collection_name w
      in if collection_type = ''hybrid'' then
           (None, create_hybrid_collection mgr collection_name w1)
         else if collection_type = ''quantized'' then
           (case quantization_config of
              None \<Rightarrow> (Some (ValueError Quantization_config_required), w1)
            | Some qc \<Rightarrow> (None, create_quantized_collection mgr collection_name qc w1))
         else (None, create_standard_collection mgr collection_name w1))"

section \<open>Notions used to state the properties\<close>

text \<open>
  The points of the batch at offset \<open>i\<close>, as the loop of \<open>upload_batch\<close> builds them, and
  the number of offsets \<open>range(0, n, batch_size)\<close> gives for a positive batch size.
\<close>

definition batch_points ::
  "UploadConfig \<Rightarrow> 'a list \<Rightarrow> real list list \<Rightarrow> bool \<Rightarrow> string \<Rightarrow> int \<Rightarrow> 'a PointStruct list" where
  "batch_points cfg dataset embeddings named_vector vector_name i =
     prepare_points (slice dataset i (i + batch_size cfg))
       (slice embeddings i (i + batch_size cfg)) i named_vector vector_name"

definition batch_count :: "UploadConfig \<Rightarrow> nat \<Rightarrow> nat" where
  "batch_count cfg n = (n + nat (batch_size cfg) - 1) div nat (batch_size cfg)"

text \<open>
  The events of \<open>k\<close> failed attempts numbered from \<open>a\<close>, each followed by its backoff, and
  of the attempt after them.
\<close>

fun attempts_trace :: "real \<Rightarrow> string \<Rightarrow> 'a PointStruct list \<Rightarrow> nat \<Rightarrow> nat \<Rightarrow> 'a event list" where
  "attempts_trace b name pts a 0 = [Upsert name pts]"
| "attempts_trace b name pts a (Suc k) =
     Upsert name pts # Sleep (b * real (a + 1)) # attempts_trace b name pts (Suc a) k"

text \<open>
  The events of an upload with retry whose batches, given by offset, fail the given
  number of times before they succeed; and what that asks of the script, from the call
  index \<open>c\<close> on.
\<close>

fun retry_upload_trace ::
  "UploadConfig \<Rightarrow> string \<Rightarrow> 'a list \<Rightarrow> real list list \<Rightarrow> bool \<Rightarrow> string
     \<Rightarrow> (int \<times> nat) list \<Rightarrow> 'a event list" where
  "retry_upload_trace cfg name ds es nv vn [] = []"
| "retry_upload_trace cfg name ds es nv vn ((i, k) # rest) =
     Enter_upload_with_retry (i div batch_size cfg)
       # attempts_trace (initial_backoff cfg) name (batch_points cfg ds es nv vn i) 0 k
       @ retry_upload_trace cfg name ds es nv vn rest"

fun script_recovers :: "remote \<Rightarrow> nat \<Rightarrow> nat list \<Rightarrow> bool" where
  "script_recovers remote c [] = True"
| "script_recovers remote c (k # ks) =
     ((\<forall>j<k. \<exists>m. remote (c + j) = Some (ResponseHandlingException m))
      \<and> remote (c + k) = None \<and> script_recovers remote (c + k + 1) ks)"

text \<open>
  The query of one test string, the latencies read from the clock for \<open>n\<close> timed queries
  from the clock reading \<open>t\<close> on, the events of the timed queries, and the events of the
  warmup.
\<close>

definition query_for ::
  "BenchmarkConfig \<Rightarrow> bench_env \<Rightarrow> string \<Rightarrow> string option \<Rightarrow> SearchParams option \<Rightarrow> string
     \<Rightarrow> query_params" where
  "query_for cfg env collection_name using search_params query =
     \<lparr> q_collection_name = collection_name, q_query = encode_text env query,
       q_limit = limit cfg, q_using = truthy using, q_search_params = search_params \<rparr>"

fun samples :: "bench_env \<Rightarrow> nat \<Rightarrow> nat \<Rightarrow> real list" where
  "samples env t 0 = []"
| "samples env t (Suc n) = (clock env (Suc t) - clock env t) * 1000 # samples env (t + 2) n"

definition timed_queries ::
  "BenchmarkConfig \<Rightarrow> bench_env \<Rightarrow> string \<Rightarrow> string option \<Rightarrow> SearchParams option
     \<Rightarrow> string list \<Rightarrow> bench_event list" where
  "timed_queries cfg env collection_name using search_params qs =
     concat (map (\<lambda>q. [Time_time,
                          Query_points (query_for cfg env collection_name using search_params q),
                          Time_time]) qs)"

definition warmup_query ::
  "BenchmarkConfig \<Rightarrow> bench_env \<Rightarrow> string \<Rightarrow> string option \<Rightarrow> query_params" where
  "warmup_query cfg env collection_name using =
     \<lparr> q_collection_name = collection_name, q_query = encode_text env ''warmup query'',
       q_limit = limit cfg, q_using = truthy using, q_search_params = None \<rparr>"

definition warmup_events ::
  "BenchmarkConfig \<Rightarrow> bench_env \<Rightarrow> string \<Rightarrow> string option \<Rightarrow> bench_event list" where
  "warmup_events cfg env collection_name using =
     (if warmup_enabled cfg then [Query_points (warmup_query cfg env collection_name using)] else [])"

text \<open>The interpolation of \<open>np_percentile\<close> at the rank \<open>h\<close> of a sorted sample.\<close>

definition lerp :: "real list \<Rightarrow> real \<Rightarrow> real" where
  "lerp s h = (if nat \<lfloor>h\<rfloor> + 1 < length s
               then s ! nat \<lfloor>h\<rfloor> + (h - real (nat \<lfloor>h\<rfloor>)) * (s ! (nat \<lfloor>h\<rfloor> + 1) - s ! nat \<lfloor>h\<rfloor>)
               else s ! nat \<lfloor>h\<rfloor>)"

definition default_rescoring :: SearchParams where
  "default_rescoring = \<lparr> quantization = \<lparr> rescore = True, oversampling = 3 \<rparr> \<rparr>"

text \<open>
  The comparison mode as the specification words it: the whole of
  \<open>measure_search_latency\<close> twice, the second time with the rescoring parameters.
\<close>

definition spec_protocol_twice ::
  "BenchmarkConfig \<Rightarrow> bench_env \<Rightarrow> string \<Rightarrow> string list option \<Rightarrow> bench_event list
     \<Rightarrow> (error + (string \<rightharpoonup> metrics option)) \<times> bench_event list" where
  "spec_protocol_twice cfg env collection_name queries_arg tr =
     (case measure_search_latency cfg env collection_name queries_arg None None tr of
        (Inl e, tr1) \<Rightarrow> (Inl e, tr1)
      | (Inr first, tr1) \<Rightarrow>
          (case measure_search_latency cfg env collection_name queries_arg None
                  (Some default_rescoring) tr1 of
             (Inl e, tr2) \<Rightarrow> (Inl e, tr2)
           | (Inr second, tr2) \<Rightarrow>
               (Inr [''no_rescoring'' \<mapsto> first, ''with_rescoring'' \<mapsto> second], tr2)))"

text \<open>
  The comparison mode with a second pass that skips the warmup: \<open>measure_search_latency\<close>
  as configured, then \<open>measure_search_latency\<close> with warmup disabled and the rescoring
  parameters.
\<close>

definition protocol_then_rescoring_pass ::
  "BenchmarkConfig \<Rightarrow> bench_env \<Rightarrow> string \<Rightarrow> string list option \<Rightarrow> bench_event list
     \<Rightarrow> (error + (string \<rightharpoonup> metrics option)) \<times> bench_event list" where
  "protocol_then_rescoring_pass cfg env collection_name queries_arg tr =
     (case measure_search_latency cfg env collection_name queries_arg None None tr of
        (Inl e, tr1) \<Rightarrow> (Inl e, tr1)
      | (Inr first, tr1) \<Rightarrow>
          (case measure_search_latency (cfg\<lparr>warmup_enabled := False\<rparr>) env collection_name
                  queries_arg None (Some default_rescoring) tr1 of
             (Inl e, tr2) \<Rightarrow> (Inl e, tr2)
           | (Inr second, tr2) \<Rightarrow>
               (Inr [''no_rescoring'' \<mapsto> first, ''with_rescoring'' \<mapsto> second], tr2)))"

section \<open>Concrete configurations, scripts and inputs\<close>

definition default_upload_config :: UploadConfig where
  "default_upload_config =
     \<lparr> batch_size = 50, enable_retry = False, max_retries = 3, initial_backoff = 2 \<rparr>"

definition upload_config_5 :: UploadConfig where
  "upload_config_5 =
     \<lparr> batch_size = 5, enable_retry = False, max_retries = 3, initial_backoff = 2 \<rparr>"

definition upload_config_retry :: "int \<Rightarrow> int \<Rightarrow> UploadConfig" where
  "upload_config_retry b m =
     \<lparr> batch_size = b, enable_retry = True, max_retries = m, initial_backoff = 2 \<rparr>"

definition always_ok :: remote where
  "always_ok k = None"

definition always_timeout :: remote where
  "always_timeout k = Some (ResponseHandlingException ''Timeout'')"

definition fails_twice :: remote where
  "fails_twice k = (if k < 2 then Some (ResponseHandlingException ''Timeout'') else None)"

definition items20 :: "nat list" where
  "items20 = [100, 101, 102, 103, 104, 105, 106, 107, 108, 109,
              110, 111, 112, 113, 114, 115, 116, 117, 118, 119]"

definition vectors20 :: "real list list" where
  "vectors20 = map (\<lambda>i. [real i, 1]) items20"

definition items3 :: "nat list" where
  "items3 = [10, 20, 30]"

definition vectors3 :: "real list list" where
  "vectors3 = [[1, 0], [0, 1], [1, 1]]"

definition points1 :: "nat PointStruct list" where
  "points1 = [\<lparr>point_id = 0, vector = Unnamed [1, 0], payload = 10\<rparr>]"

definition one_item :: "nat list" where
  "one_item = [7]"

definition one_vector :: "real list list" where
  "one_vector = [[1, 0]]"

definition bench_config :: "bool \<Rightarrow> BenchmarkConfig" where
  "bench_config w =
     \<lparr> warmup_enabled = w, limit = 10, oversampling_factors = [2, 3, 5, 8, 10],
       test_queries = [''python machine learning tutorial'', ''javascript web development''] \<rparr>"

definition steady_env :: bench_env where
  "steady_env =
     \<lparr> encode_text = (\<lambda>s. [real (length s)]),
       query_outcome = (\<lambda>k. Inr []),
       clock = (\<lambda>k. real k / 1000) \<rparr>"

definition default_manager :: manager where
  "default_manager =
     \<lparr> collection_config = \<lparr> distance = COSINE, on_disk = True, timeout = 60 \<rparr>,
       embedding_config = \<lparr> model_name = ''all-MiniLM-L6-v2'', vector_size = 384 \<rparr> \<rparr>"

definition products_collection :: "unit create_call" where
  "products_collection =
     \<lparr> cc_collection_name = ''products'',
       cc_vectors_config = Single \<lparr> vp_size = 384, vp_distance = COSINE, vp_on_disk = Some True \<rparr>,
       cc_sparse_vectors_config = None,
       cc_quantization_config = None \<rparr>"

definition service_with_products :: "unit service" where
  "service_with_products = \<lparr> collections = [''products'' \<mapsto> products_collection], calls = [] \<rparr>"

section \<open>Properties of the uploader\<close>

subsection \<open>Traces\<close>

lemma upserts_append: "upserts (xs @ ys) = upserts xs @ upserts ys"
  by (induction xs rule: upserts.induct) simp_all

lemma sleeps_append: "sleeps (xs @ ys) = sleeps xs @ sleeps ys"
  by (induction xs rule: sleeps.induct) simp_all

lemma retry_entries_append: "retry_entries (xs @ ys) = retry_entries xs @ retry_entries ys"
  by (induction xs rule: retry_entries.induct) simp_all

lemma upserts_attempts_trace:
  "upserts (attempts_trace b name pts a k) = replicate (Suc k) (name, pts)"
  by (induction k arbitrary: a) simp_all

lemma sleeps_attempts_trace:
  "sleeps (attempts_trace b name pts a k) = map (\<lambda>j. b * real (a + j + 1)) [0..<k]"
proof (induction k arbitrary: a)
  case 0
  show ?case by simp
next
  case (Suc k)
  have "map (\<lambda>j. b * real (a + j + 1)) [0..<Suc k]
          = b * real (a + 1) # map (\<lambda>j. b * real (Suc a + j + 1)) [0..<k]"
    by (simp add: upt_conv_Cons map_Suc_upt [symmetric] del: upt_Suc)
  then show ?case using Suc.IH [of "Suc a"] by simp
qed

lemma upserts_map_Upsert:
  "upserts (map (\<lambda>i. Upsert name (f i)) xs) = map (\<lambda>i. (name, f i)) xs"
  by (induction xs) simp_all

lemma upserts_retry_upload_trace_first_try:
  "upserts (retry_upload_trace cfg name ds es nv vn (map (\<lambda>i. (i, 0)) offs))
     = map (\<lambda>i. (name, batch_points cfg ds es nv vn i)) offs"
  by (induction offs) simp_all

subsection \<open>The retry loop\<close>

lemma range_from: "a < n \<Longrightarrow> map int [a..<n] = int a # map int [Suc a..<n]"
  by (simp add: upt_conv_Cons)

lemma retry_loop_step:
  assumes "remote (length (upserts tr)) = Some (ResponseHandlingException m)"
    and "int a < max_retries cfg - 1"
  shows "retry_loop cfg remote name pts (map int [a..<nat (max_retries cfg)]) tr
           = retry_loop cfg remote name pts (map int [Suc a..<nat (max_retries cfg)])
               (tr @ [Upsert name pts, Sleep (initial_backoff cfg * real (a + 1))])"
proof -
  have "a < nat (max_retries cfg)" using assms(2) by simp
  then have "map int [a..<nat (max_retries cfg)] = int a # map int [Suc a..<nat (max_retries cfg)]"
    by (rule range_from)
  then show ?thesis using assms by (simp add: client_upsert_def add.commute)
qed

lemma retry_loop_last_ok:
  assumes "remote (length (upserts tr)) = None" and "int a < max_retries cfg"
  shows "retry_loop cfg remote name pts (map int [a..<nat (max_retries cfg)]) tr
           = (Inr (length pts), tr @ [Upsert name pts])"
proof -
  have "a < nat (max_retries cfg)" using assms(2) by simp
  then have "map int [a..<nat (max_retries cfg)] = int a # map int [Suc a..<nat (max_retries cfg)]"
    by (rule range_from)
  then show ?thesis using assms by (simp add: client_upsert_def)
qed

lemma retry_loop_last_fail:
  assumes "remote (length (upserts tr)) = Some (ResponseHandlingException m)"
    and "int a + 1 = max_retries cfg"
  shows "retry_loop cfg remote name pts (map int [a..<nat (max_retries cfg)]) tr
           = (Inl (ResponseHandlingException m), tr @ [Upsert name pts])"
proof -
  have "a < nat (max_retries cfg)" using assms(2) by simp
  then have "map int [a..<nat (max_retries cfg)] = int a # map int [Suc a..<nat (max_retries cfg)]"
    by (rule range_from)
  moreover have "\<not> int a < max_retries cfg - 1" using assms(2) by simp
  ultimately show ?thesis using assms(1) by (simp add: client_upsert_def)
qed

lemma retry_loop_recovers:
  assumes "\<And>j. j < k \<Longrightarrow> \<exists>m. remote (length (upserts tr) + j) = Some (ResponseHandlingException m)"
    and "remote (length (upserts tr) + k) = None"
    and "int (a + k) < max_retries cfg"
  shows "retry_loop cfg remote name pts (map int [a..<nat (max_retries cfg)]) tr
           = (Inr (length pts), tr @ attempts_trace (initial_backoff cfg) name pts a k)"
  using assms
proof (induction k arbitrary: a tr)
  case 0
  then show ?case by (simp add: retry_loop_last_ok)
next
  case (Suc k)
  from Suc.prems(1)[of 0] obtain m
    where m: "remote (length (upserts tr)) = Some (ResponseHandlingException m)"
    by auto
  let ?tr = "tr @ [Upsert name pts, Sleep (initial_backoff cfg * real (a + 1))]"
  have len: "length (upserts ?tr) = Suc (length (upserts tr))"
    by (simp add: upserts_append)
  have "retry_loop cfg remote name pts (map int [a..<nat (max_retries cfg)]) tr
          = retry_loop cfg remote name pts (map int [Suc a..<nat (max_retries cfg)]) ?tr"
    using m Suc.prems(3) by (intro retry_loop_step) simp_all
  also have "\<dots> = (Inr (length pts), ?tr @ attempts_trace (initial_backoff cfg) name pts (Suc a) k)"
  proof (rule Suc.IH)
    fix j assume "j < k"
    then show "\<exists>m. remote (length (upserts ?tr) + j) = Some (ResponseHandlingException m)"
      using Suc.prems(1)[of "Suc j"] unfolding len by simp
  next
    show "remote (length (upserts ?tr) + k) = None" using Suc.prems(2) unfolding len by simp
  next
    show "int (Suc a + k) < max_retries cfg" using Suc.prems(3) by simp
  qed
  finally show ?case by simp
qed

lemma retry_loop_exhausted:
  assumes "\<And>j. j \<le> k \<Longrightarrow> remote (length (upserts tr) + j) = Some (ResponseHandlingException (msg j))"
    and "int (a + k) + 1 = max_retries cfg"
  shows "retry_loop cfg remote name pts (map int [a..<nat (max_retries cfg)]) tr
           = (Inl (ResponseHandlingException (msg k)),
              tr @ attempts_trace (initial_backoff cfg) name pts a k)"
  using assms
proof (induction k arbitrary: a tr msg)
  case 0
  then show ?case using 0(1)[of 0] by (simp add: retry_loop_last_fail)
next
  case (Suc k)
  let ?tr = "tr @ [Upsert name pts, Sleep (initial_backoff cfg * real (a + 1))]"
  have len: "length (upserts ?tr) = Suc (length (upserts tr))"
    by (simp add: upserts_append)
  have "retry_loop cfg remote name pts (map int [a..<nat (max_retries cfg)]) tr
          = retry_loop cfg remote name pts (map int [Suc a..<nat (max_retries cfg)]) ?tr"
    using Suc.prems(1)[of 0] Suc.prems(2) by (intro retry_loop_step) simp_all
  also have "\<dots> = (Inl (ResponseHandlingException (msg (Suc k))),
                     ?tr @ attempts_trace (initial_backoff cfg) name pts (Suc a) k)"
  proof (rule Suc.IH[where msg = "\<lambda>j. msg (Suc j)"])
    fix j assume "j \<le> k"
    then show "remote (length (upserts ?tr) + j) = Some (ResponseHandlingException (msg (Suc j)))"
      using Suc.prems(1)[of "Suc j"] unfolding len by simp
  next
    show "int (Suc a + k) + 1 = max_retries cfg" using Suc.prems(2) by simp
  qed
  finally show ?case by simp
qed

lemma upload_with_retry_recovers:
  assumes "\<And>j. j < k \<Longrightarrow> \<exists>m. remote (length (upserts tr) + j) = Some (ResponseHandlingException m)"
    and "remote (length (upserts tr) + k) = None"
    and "int k < max_retries cfg"
  shows "upload_with_retry cfg remote name pts bn tr
           = (Inr (length pts),
              tr @ Enter_upload_with_retry bn # attempts_trace (initial_backoff cfg) name pts 0 k)"
proof -
  have "retry_loop cfg remote name pts (map int [0..<nat (max_retries cfg)])
          (tr @ [Enter_upload_with_retry bn])
        = (Inr (length pts),
           (tr @ [Enter_upload_with_retry bn]) @ attempts_trace (initial_backoff cfg) name pts 0 k)"
    using assms by (intro retry_loop_recovers) (simp_all add: upserts_append)
  then show ?thesis by (simp add: upload_with_retry_def range1_def)
qed

lemma upload_with_retry_exhausted:
  assumes "\<And>j. j \<le> k \<Longrightarrow> remote (length (upserts tr) + j) = Some (ResponseHandlingException (msg j))"
    and "int k + 1 = max_retries cfg"
  shows "upload_with_retry cfg remote name pts bn tr
           = (Inl (ResponseHandlingException (msg k)),
              tr @ Enter_upload_with_retry bn # attempts_trace (initial_backoff cfg) name pts 0 k)"
proof -
  have "retry_loop cfg remote name pts (map int [0..<nat (max_retries cfg)])
          (tr @ [Enter_upload_with_retry bn])
        = (Inl (ResponseHandlingException (msg k)),
           (tr @ [Enter_upload_with_retry bn]) @ attempts_trace (initial_backoff cfg) name pts 0 k)"
    using assms by (intro retry_loop_exhausted) (simp_all add: upserts_append)
  then show ?thesis by (simp add: upload_with_retry_def range1_def)
qed

subsection \<open>Offsets, slices and batches\<close>

lemma range3_pos:
  assumes "0 < B"
  shows "range3 0 (int n) B = Inr (map (\<lambda>k. int k * B) [0..<(n + nat B - 1) div nat B])"
proof -
  have "int n + B - 1 = int (n + nat B - 1)" using assms by simp
  moreover have "B = int (nat B)" using assms by simp
  ultimately have "(int n + B - 1) div B = int ((n + nat B - 1) div nat B)"
    by (metis zdiv_int)
  then show ?thesis using assms by (simp add: range3_def)
qed

lemma slice_take_drop:
  assumes "0 \<le> i" and "0 \<le> b"
  shows "slice xs i (i + b) = take (nat b) (drop (nat i) xs)"
proof (cases "i < int (length xs)")
  case True
  then have "take (nat (min (int (length xs)) (i + b) - i)) (drop (nat i) xs)
               = take (nat b) (drop (nat i) xs)"
    using assms by (cases "i + b \<le> int (length xs)") (simp_all add: min_def)
  then show ?thesis using True assms by (simp add: slice_def clamp_index_def Let_def min_def)
next
  case False
  then show ?thesis using assms by (simp add: slice_def clamp_index_def Let_def min_def)
qed

lemma prepare_points_eq:
  "prepare_points ds es s nv vn
     = map (\<lambda>j. \<lparr> point_id = s + int j,
                   vector = (if nv then Named vn (es ! j) else Unnamed (es ! j)),
                   payload = ds ! j \<rparr>) [0..<min (length ds) (length es)]"
  by (rule nth_equalityI) (simp_all add: prepare_points_def nth_enumerate_eq)

lemma length_prepare_points:
  "length (prepare_points ds es s nv vn) = min (length ds) (length es)"
  by (simp add: prepare_points_eq)

lemma batch_points_offset:
  assumes "0 < batch_size cfg"
  shows "batch_points cfg ds es nv vn (int k * batch_size cfg)
           = prepare_points (take (nat (batch_size cfg)) (drop (k * nat (batch_size cfg)) ds))
               (take (nat (batch_size cfg)) (drop (k * nat (batch_size cfg)) es))
               (int (k * nat (batch_size cfg))) nv vn"
proof -
  have "nat (int k * batch_size cfg) = k * nat (batch_size cfg)"
    using assms by (simp add: nat_mult_distrib)
  moreover have "int k * batch_size cfg = int (k * nat (batch_size cfg))"
    using assms by simp
  ultimately show ?thesis
    using assms by (simp add: batch_points_def slice_take_drop del: of_nat_mult)
qed

lemma length_batch_points_offset:
  assumes "0 < batch_size cfg" and "length ds = length es"
  shows "length (batch_points cfg ds es nv vn (int k * batch_size cfg))
           = min (nat (batch_size cfg)) (length ds - k * nat (batch_size cfg))"
  using assms by (simp add: batch_points_offset length_prepare_points)

lemma batch_points_nth:
  assumes "0 < batch_size cfg" and "length ds = length es"
    and "j < min (nat (batch_size cfg)) (length ds - k * nat (batch_size cfg))"
  shows "batch_points cfg ds es nv vn (int k * batch_size cfg) ! j
           = \<lparr> point_id = int (k * nat (batch_size cfg) + j),
               vector = (if nv then Named vn (es ! (k * nat (batch_size cfg) + j))
                         else Unnamed (es ! (k * nat (batch_size cfg) + j))),
               payload = ds ! (k * nat (batch_size cfg) + j) \<rparr>"
proof -
  have "k * nat (batch_size cfg) \<le> length ds" "k * nat (batch_size cfg) \<le> length es"
    using assms(2,3) by arith+
  then show ?thesis
    using assms by (simp add: batch_points_offset prepare_points_eq)
qed

lemma batch_points_ids:
  assumes "0 < batch_size cfg" and "length ds = length es"
  shows "map point_id (batch_points cfg ds es nv vn (int k * batch_size cfg))
           = map (\<lambda>j. int (k * nat (batch_size cfg) + j))
               [0..<min (nat (batch_size cfg)) (length ds - k * nat (batch_size cfg))]"
  using assms by (simp add: batch_points_offset prepare_points_eq comp_def min.commute)

lemma sum_batch_lengths:
  "(\<Sum>k\<leftarrow>[0..<c]. min B (n - k * B)) = min n (c * B)"
  by (induction c) (auto simp: min_def)

lemma batches_cover:
  assumes "0 < B"
  shows "(\<Sum>k\<leftarrow>[0..<(n + B - 1) div B]. min B (n - k * B)) = (n::nat)"
proof -
  have "n \<le> (n + B - 1) div B * B"
  proof -
    have "(n + B - 1) mod B < B" using assms by simp
    moreover have "(n + B - 1) div B * B + (n + B - 1) mod B = n + B - 1" by simp
    ultimately show ?thesis by linarith
  qed
  then show ?thesis by (simp add: sum_batch_lengths)
qed

lemma sum_batch_points_lengths:
  assumes "length ds = length es" and "0 < batch_size cfg"
  shows "(\<Sum>k\<leftarrow>[0..<batch_count cfg (length ds)].
            length (batch_points cfg ds es nv vn (int k * batch_size cfg))) = length ds"
proof -
  let ?B = "nat (batch_size cfg)"
  have "(\<Sum>k\<leftarrow>[0..<batch_count cfg (length ds)].
            length (batch_points cfg ds es nv vn (int k * batch_size cfg)))
          = (\<Sum>k\<leftarrow>[0..<(length ds + ?B - 1) div ?B]. min ?B (length ds - k * ?B))"
    using assms by (simp add: length_batch_points_offset batch_count_def)
  also have "\<dots> = length ds"
    using assms(2) by (intro batches_cover) simp
  finally show ?thesis .
qed

lemma batch_count_offset:
  assumes "0 < batch_size cfg" and "k < batch_count cfg n"
  shows "k * nat (batch_size cfg) < n"
proof -
  let ?B = "nat (batch_size cfg)"
  have B: "0 < ?B" using assms(1) by simp
  have "Suc k \<le> (n + ?B - 1) div ?B" using assms(2) by (simp add: batch_count_def)
  then have "Suc k * ?B \<le> (n + ?B - 1) div ?B * ?B" by (rule mult_le_mono1)
  also have "\<dots> \<le> n + ?B - 1" by simp
  finally show ?thesis using B by simp
qed

subsection \<open>The upload loop\<close>

lemma upload_loop_retry:
  assumes "enable_retry cfg"
    and "script_recovers remote (length (upserts tr)) (map snd iks)"
    and "\<And>k. k \<in> set (map snd iks) \<Longrightarrow> int k < max_retries cfg"
  shows "upload_loop cfg remote name ds es nv vn (map fst iks) tot tr
           = (Inr (tot + sum_list (map (\<lambda>i. length (batch_points cfg ds es nv vn i)) (map fst iks))),
              tr @ retry_upload_trace cfg name ds es nv vn iks)"
  using assms(2,3)
proof (induction iks arbitrary: tot tr)
  case Nil
  show ?case by simp
next
  case (Cons ik iks)
  obtain i k where ik: "ik = (i, k)" by (cases ik)
  let ?pts = "batch_points cfg ds es nv vn i"
  let ?tr = "tr @ Enter_upload_with_retry (i div batch_size cfg)
                 # attempts_trace (initial_backoff cfg) name ?pts 0 k"
  have rec: "script_recovers remote (length (upserts tr) + k + 1) (map snd iks)"
    and fails: "\<And>j. j < k \<Longrightarrow> \<exists>m. remote (length (upserts tr) + j) = Some (ResponseHandlingException m)"
    and ok: "remote (length (upserts tr) + k) = None"
    using Cons.prems(1) by (simp_all add: ik)
  have k: "int k < max_retries cfg" using Cons.prems(2)[of k] by (simp add: ik)
  have one: "upload_with_retry cfg remote name ?pts (i div batch_size cfg) tr
               = (Inr (length ?pts), ?tr)"
    using fails ok k by (rule upload_with_retry_recovers)
  have len: "length (upserts ?tr) = length (upserts tr) + k + 1"
    by (simp add: upserts_append upserts_attempts_trace)
  have "upload_loop cfg remote name ds es nv vn (map fst iks) (tot + length ?pts) ?tr
          = (Inr (tot + length ?pts
                   + sum_list (map (\<lambda>i. length (batch_points cfg ds es nv vn i)) (map fst iks))),
             ?tr @ retry_upload_trace cfg name ds es nv vn iks)"
  proof (rule Cons.IH)
    show "script_recovers remote (length (upserts ?tr)) (map snd iks)"
      using rec unfolding len .
  next
    fix k' assume "k' \<in> set (map snd iks)"
    then show "int k' < max_retries cfg" using Cons.prems(2)[of k'] by simp
  qed
  moreover have "upload_loop cfg remote name ds es nv vn (map fst (ik # iks)) tot tr
          = upload_loop cfg remote name ds es nv vn (map fst iks) (tot + length ?pts) ?tr"
    using one assms(1) by (simp add: ik batch_points_def)
  ultimately show ?case by (simp add: ik)
qed

lemma upload_loop_plain:
  assumes "\<not> enable_retry cfg" and "\<forall>j. remote j = None"
  shows "upload_loop cfg remote name ds es nv vn offs tot tr
           = (Inr (tot + sum_list (map (\<lambda>i. length (batch_points cfg ds es nv vn i)) offs)),
              tr @ map (\<lambda>i. Upsert name (batch_points cfg ds es nv vn i)) offs)"
proof (induction offs arbitrary: tot tr)
  case Nil
  show ?case by simp
next
  case (Cons i offs)
  show ?case
    using assms Cons.IH [of "tot + length (batch_points cfg ds es nv vn i)"
        "tr @ [Upsert name (batch_points cfg ds es nv vn i)]"]
    by (simp add: client_upsert_def batch_points_def Let_def)
qed

lemma script_recovers_all_ok:
  assumes "\<forall>j. remote j = None"
  shows "script_recovers remote c (map (\<lambda>i. 0) offs)"
  using assms by (induction offs arbitrary: c) simp_all

lemma upload_loop_all_ok:
  assumes "\<forall>j. remote j = None" and "enable_retry cfg \<longrightarrow> 1 \<le> max_retries cfg"
  shows "fst (upload_loop cfg remote name ds es nv vn offs tot tr)
           = Inr (tot + sum_list (map (\<lambda>i. length (batch_points cfg ds es nv vn i)) offs))
       \<and> upserts (snd (upload_loop cfg remote name ds es nv vn offs tot tr))
           = upserts tr @ map (\<lambda>i. (name, batch_points cfg ds es nv vn i)) offs"
proof (cases "enable_retry cfg")
  case True
  have "upload_loop cfg remote name ds es nv vn (map fst (map (\<lambda>i. (i, 0::nat)) offs)) tot tr
          = (Inr (tot + sum_list (map (\<lambda>i. length (batch_points cfg ds es nv vn i))
                                   (map fst (map (\<lambda>i. (i, 0::nat)) offs)))),
             tr @ retry_upload_trace cfg name ds es nv vn (map (\<lambda>i. (i, 0)) offs))"
  proof (rule upload_loop_retry [OF True])
    show "script_recovers remote (length (upserts tr)) (map snd (map (\<lambda>i. (i, 0::nat)) offs))"
      using script_recovers_all_ok [OF assms(1)] by (simp add: comp_def)
  next
    fix k :: nat assume "k \<in> set (map snd (map (\<lambda>i. (i, 0::nat)) offs))"
    then have "k = 0" by auto
    then show "int k < max_retries cfg" using assms(2) True by simp
  qed
  then show ?thesis
    by (simp add: comp_def upserts_append upserts_retry_upload_trace_first_try)
next
  case False
  show ?thesis
    by (simp add: upload_loop_plain [OF False assms(1)] upserts_append upserts_map_Upsert)
qed

lemma upload_batch_all_ok:
  assumes "length ds = length es" and "0 < batch_size cfg"
    and "\<forall>j. remote j = None" and "enable_retry cfg \<longrightarrow> 1 \<le> max_retries cfg"
  shows "fst (upload_batch cfg remote name ds es nv vn tr) = Inr (length ds)
       \<and> upserts (snd (upload_batch cfg remote name ds es nv vn tr))
           = upserts tr @ map (\<lambda>k. (name, batch_points cfg ds es nv vn (int k * batch_size cfg)))
                            [0..<(length ds + nat (batch_size cfg) - 1) div nat (batch_size cfg)]"
proof -
  let ?B = "nat (batch_size cfg)"
  let ?nb = "(length ds + ?B - 1) div ?B"
  let ?offs = "map (\<lambda>k. int k * batch_size cfg) [0..<?nb]"
  have run: "upload_batch cfg remote name ds es nv vn tr
               = upload_loop cfg remote name ds es nv vn ?offs 0 tr"
    using assms(1) by (simp add: upload_batch_def range3_pos [OF assms(2)])
  have "(\<Sum>k\<leftarrow>[0..<?nb]. length (batch_points cfg ds es nv vn (int k * batch_size cfg)))
          = (\<Sum>k\<leftarrow>[0..<?nb]. min ?B (length ds - k * ?B))"
    using assms(1,2) by (simp add: length_batch_points_offset)
  also have "\<dots> = length ds"
    using assms(2) by (intro batches_cover) simp
  finally have total:
    "(\<Sum>k\<leftarrow>[0..<?nb]. length (batch_points cfg ds es nv vn (int k * batch_size cfg))) = length ds" .
  show ?thesis
    unfolding run using total
    by (simp add: upload_loop_all_ok [OF assms(3,4)] comp_def)
qed

lemma upload_batch_recovers:
  assumes "enable_retry cfg" and "length ds = length es" and "0 < batch_size cfg"
    and "length ks = batch_count cfg (length ds)"
    and "\<forall>k\<in>set ks. int k < max_retries cfg"
    and "script_recovers remote (length (upserts tr)) ks"
  shows "upload_batch cfg remote name ds es nv vn tr
           = (Inr (length ds),
              tr @ retry_upload_trace cfg name ds es nv vn
                     (zip (map (\<lambda>k. int k * batch_size cfg) [0..<batch_count cfg (length ds)]) ks))"
proof -
  let ?offs = "map (\<lambda>k. int k * batch_size cfg) [0..<batch_count cfg (length ds)]"
  let ?iks = "zip ?offs ks"
  have fst_iks: "map fst ?iks = ?offs" and snd_iks: "map snd ?iks = ks"
    using assms(4) by simp_all
  have run: "upload_batch cfg remote name ds es nv vn tr
               = upload_loop cfg remote name ds es nv vn (map fst ?iks) 0 tr"
    unfolding fst_iks using assms(2)
    by (simp add: upload_batch_def range3_pos [OF assms(3)] batch_count_def)
  have "upload_loop cfg remote name ds es nv vn (map fst ?iks) 0 tr
          = (Inr (0 + sum_list (map (\<lambda>i. length (batch_points cfg ds es nv vn i)) (map fst ?iks))),
             tr @ retry_upload_trace cfg name ds es nv vn ?iks)"
  proof (rule upload_loop_retry [OF assms(1)])
    show "script_recovers remote (length (upserts tr)) (map snd ?iks)"
      unfolding snd_iks by (rule assms(6))
  next
    fix k assume "k \<in> set (map snd ?iks)"
    then show "int k < max_retries cfg" unfolding snd_iks using assms(5) by blast
  qed
  moreover have "sum_list (map (\<lambda>i. length (batch_points cfg ds es nv vn i)) (map fst ?iks))
                   = length ds"
    unfolding fst_iks using sum_batch_points_lengths [OF assms(2,3), of nv vn]
    by (simp add: comp_def)
  ultimately show ?thesis unfolding run by simp
qed

lemma upload_batch_exhausted:
  assumes "enable_retry cfg" and "length ds = length es" and "ds \<noteq> []" and "0 < batch_size cfg"
    and "\<forall>j. remote j = Some (ResponseHandlingException (msg j))"
    and "int k + 1 = max_retries cfg"
  shows "upload_batch cfg remote name ds es nv vn tr
           = (Inl (ResponseHandlingException (msg (length (upserts tr) + k))),
              tr @ Enter_upload_with_retry 0
                 # attempts_trace (initial_backoff cfg) name (batch_points cfg ds es nv vn 0) 0 k)"
proof -
  let ?B = "nat (batch_size cfg)"
  have "0 < length ds" using assms(3) by simp
  then have "?B \<le> length ds + ?B - 1" by arith
  then have "0 < (length ds + ?B - 1) div ?B"
    using assms(4) by (simp add: div_greater_zero_iff)
  then have "[0..<(length ds + ?B - 1) div ?B] = 0 # [Suc 0..<(length ds + ?B - 1) div ?B]"
    by (rule upt_conv_Cons)
  then have offs: "range3 0 (int (length ds)) (batch_size cfg)
                     = Inr (0 # map (\<lambda>k. int k * batch_size cfg) [Suc 0..<(length ds + ?B - 1) div ?B])"
    by (simp add: range3_pos [OF assms(4)])
  have one: "upload_with_retry cfg remote name (batch_points cfg ds es nv vn 0) 0 tr
               = (Inl (ResponseHandlingException (msg (length (upserts tr) + k))),
                  tr @ Enter_upload_with_retry 0
                     # attempts_trace (initial_backoff cfg) name (batch_points cfg ds es nv vn 0) 0 k)"
    using assms(5,6)
    by (intro upload_with_retry_exhausted [where msg = "\<lambda>j. msg (length (upserts tr) + j)"]) simp_all
  show ?thesis
    unfolding upload_batch_def offs
    using assms(1,2) one by (simp add: batch_points_def Let_def)
qed

subsection \<open>Size mismatch and the empty corpus\<close>

text \<open>
  C4. For every collection name, and every dataset and embeddings of different lengths,
  \<open>upload_batch\<close> fails with the size-mismatch \<open>ValueError\<close> and leaves the trace as it
  was: no upsert, no sleep, no entry into the retry routine. This holds for every
  configuration and every remote script.
\<close>

theorem upload_size_mismatch:
  assumes "length dataset \<noteq> length embeddings"
  shows "upload_batch cfg remote collection_name dataset embeddings named_vector vector_name tr
           = (Inl (ValueError (Size_mismatch (length dataset) (length embeddings))), tr)"
  using assms by (simp add: upload_batch_def)

theorem upload_size_mismatch_witness:
  "length [(1::nat), 2, 3] \<noteq> length [[0.5::real]] \<and>
   upload_batch default_upload_config always_ok ''test'' [(1::nat), 2, 3] [[0.5]] True ''dense'' []
     = (Inl (ValueError (Size_mismatch 3 1)), [])"
  using upload_size_mismatch [of "[(1::nat), 2, 3]" "[[0.5::real]]" default_upload_config
      always_ok "''test''" True "''dense''" "[]"]
  by simp

text \<open>
  C10. With an empty dataset and empty embeddings \<open>upload_batch\<close> returns 0 and leaves
  the trace as it was (no upsert call), for every collection name, whenever the
  configured batch size is not zero. (A zero batch size makes \<open>range\<close> raise.)
\<close>

theorem upload_empty:
  assumes "batch_size cfg \<noteq> 0"
  shows "upload_batch cfg remote collection_name [] [] named_vector vector_name tr = (Inr 0, tr)"
  using assms by (simp add: upload_batch_def range3_def)

theorem upload_empty_witness:
  "batch_size default_upload_config \<noteq> 0 \<and>
   upload_batch default_upload_config always_ok ''test'' ([] :: nat list) [] True ''dense'' []
     = (Inr 0, [])"
  using upload_empty [of default_upload_config always_ok "''test''" True "''dense''" "[]"]
  by (simp add: default_upload_config_def)

subsection \<open>Batches and identifiers\<close>

text \<open>
  C1. Let the dataset and the embeddings have the same length n, let the batch size B be
  positive, let every upsert succeed, and let \<open>max_retries\<close> be at least 1 when retry is
  enabled. Then \<open>upload_batch\<close> returns n, and the upsert calls it adds to the trace are
  exactly one per batch, in ascending order of the offsets \<open>0, B, 2B, \<dots>\<close>, each to the
  given collection. Batch k is not empty, has \<open>min B (n - k * B)\<close> points (B but for the
  last), and its j-th point has the identifier \<open>k * B + j\<close>, the item \<open>k * B + j\<close> as
  payload and the embedding \<open>k * B + j\<close> as vector, under the vector name when named
  vectors are asked for. In particular 20 items with batch size 5 and retry disabled give
  four upsert calls with the identifiers 0 to 4, 5 to 9, 10 to 14 and 15 to 19.
\<close>

theorem upload_batches:
  assumes "length dataset = length embeddings"
    and "0 < batch_size cfg"
    and "\<forall>j. remote j = None"
    and "enable_retry cfg \<longrightarrow> 1 \<le> max_retries cfg"
  shows "fst (upload_batch cfg remote name dataset embeddings nv vn tr) = Inr (length dataset)
       \<and> upserts (snd (upload_batch cfg remote name dataset embeddings nv vn tr))
           = upserts tr @ map (\<lambda>k. (name, batch_points cfg dataset embeddings nv vn (int k * batch_size cfg)))
                            [0..<batch_count cfg (length dataset)]
       \<and> (\<forall>k<batch_count cfg (length dataset).
             0 < length (batch_points cfg dataset embeddings nv vn (int k * batch_size cfg))
           \<and> length (batch_points cfg dataset embeddings nv vn (int k * batch_size cfg))
               = min (nat (batch_size cfg)) (length dataset - k * nat (batch_size cfg))
           \<and> (\<forall>j<length (batch_points cfg dataset embeddings nv vn (int k * batch_size cfg)).
                 batch_points cfg dataset embeddings nv vn (int k * batch_size cfg) ! j
                   = \<lparr> point_id = int (k * nat (batch_size cfg) + j),
                       vector = (if nv then Named vn (embeddings ! (k * nat (batch_size cfg) + j))
                                 else Unnamed (embeddings ! (k * nat (batch_size cfg) + j))),
                       payload = dataset ! (k * nat (batch_size cfg) + j) \<rparr>))
       \<and> (length dataset = 20 \<and> batch_size cfg = 5 \<and> \<not> enable_retry cfg \<longrightarrow>
             map (\<lambda>(c, pts). map point_id pts)
               (drop (length (upserts tr))
                  (upserts (snd (upload_batch cfg remote name dataset embeddings nv vn tr))))
               = [[0, 1, 2, 3, 4], [5, 6, 7, 8, 9], [10, 11, 12, 13, 14], [15, 16, 17, 18, 19]])"
proof -
  note run = upload_batch_all_ok [OF assms]
  have result: "fst (upload_batch cfg remote name dataset embeddings nv vn tr) = Inr (length dataset)"
    and calls: "upserts (snd (upload_batch cfg remote name dataset embeddings nv vn tr))
           = upserts tr @ map (\<lambda>k. (name, batch_points cfg dataset embeddings nv vn (int k * batch_size cfg)))
                            [0..<batch_count cfg (length dataset)]"
    unfolding batch_count_def using run by blast+
  have sizes: "\<forall>k<batch_count cfg (length dataset).
             0 < length (batch_points cfg dataset embeddings nv vn (int k * batch_size cfg))
           \<and> length (batch_points cfg dataset embeddings nv vn (int k * batch_size cfg))
               = min (nat (batch_size cfg)) (length dataset - k * nat (batch_size cfg))
           \<and> (\<forall>j<length (batch_points cfg dataset embeddings nv vn (int k * batch_size cfg)).
                 batch_points cfg dataset embeddings nv vn (int k * batch_size cfg) ! j
                   = \<lparr> point_id = int (k * nat (batch_size cfg) + j),
                       vector = (if nv then Named vn (embeddings ! (k * nat (batch_size cfg) + j))
                                 else Unnamed (embeddings ! (k * nat (batch_size cfg) + j))),
                       payload = dataset ! (k * nat (batch_size cfg) + j) \<rparr>)"
  proof (intro allI impI conjI)
    fix k assume k: "k < batch_count cfg (length dataset)"
    have len: "length (batch_points cfg dataset embeddings nv vn (int k * batch_size cfg))
               = min (nat (batch_size cfg)) (length dataset - k * nat (batch_size cfg))"
      by (rule length_batch_points_offset [OF assms(2,1)])
    show "length (batch_points cfg dataset embeddings nv vn (int k * batch_size cfg))
               = min (nat (batch_size cfg)) (length dataset - k * nat (batch_size cfg))"
      by (rule len)
    show "0 < length (batch_points cfg dataset embeddings nv vn (int k * batch_size cfg))"
      using batch_count_offset [OF assms(2) k] assms(2) unfolding len by simp
    fix j assume "j < length (batch_points cfg dataset embeddings nv vn (int k * batch_size cfg))"
    then show "batch_points cfg dataset embeddings nv vn (int k * batch_size cfg) ! j
                   = \<lparr> point_id = int (k * nat (batch_size cfg) + j),
                       vector = (if nv then Named vn (embeddings ! (k * nat (batch_size cfg) + j))
                                 else Unnamed (embeddings ! (k * nat (batch_size cfg) + j))),
                       payload = dataset ! (k * nat (batch_size cfg) + j) \<rparr>"
      unfolding len by (rule batch_points_nth [OF assms(2,1)])
  qed
  have example: "map (\<lambda>(c, pts). map point_id pts)
               (drop (length (upserts tr))
                  (upserts (snd (upload_batch cfg remote name dataset embeddings nv vn tr))))
               = [[0, 1, 2, 3, 4], [5, 6, 7, 8, 9], [10, 11, 12, 13, 14], [15, 16, 17, 18, 19]]"
    if n20: "length dataset = 20" and b5: "batch_size cfg = 5"
  proof -
    have count: "[0..<4] = [0, 1, 2, 3::nat]"
      by (simp add: upt_rec)
    have ids: "map point_id (batch_points cfg dataset embeddings nv vn (int k * 5))
                 = map (\<lambda>j. int (k * 5 + j)) [0, 1, 2, 3, 4]" if "k < 4" for k
    proof -
      have "min 5 (20 - k * 5) = (5::nat)" using \<open>k < 4\<close> by simp
      moreover have "[0..<5] = [0, 1, 2, 3, 4::nat]" by (simp add: upt_rec)
      ultimately show ?thesis
        using batch_points_ids [OF assms(2,1), of nv vn k] n20 b5 by simp
    qed
    have "map point_id (batch_points cfg dataset embeddings nv vn 0) = [0, 1, 2, 3, 4]"
      and "map point_id (batch_points cfg dataset embeddings nv vn 5) = [5, 6, 7, 8, 9]"
      and "map point_id (batch_points cfg dataset embeddings nv vn 10) = [10, 11, 12, 13, 14]"
      and "map point_id (batch_points cfg dataset embeddings nv vn 15) = [15, 16, 17, 18, 19]"
      using ids [of 0] ids [of 1] ids [of 2] ids [of 3] by simp_all
    then show ?thesis
      using run count n20 b5 by simp
  qed
  from result calls sizes example show ?thesis by blast
qed

theorem upload_batches_witness:
  "length items20 = length vectors20
   \<and> 0 < batch_size upload_config_5
   \<and> (\<forall>j. always_ok j = None)
   \<and> fst (upload_batch upload_config_5 always_ok ''test'' items20 vectors20 True ''dense'' []) = Inr 20
   \<and> length (upserts (snd (upload_batch upload_config_5 always_ok ''test'' items20 vectors20
                               True ''dense'' []))) = 4
   \<and> map (\<lambda>(c, pts). map point_id pts)
         (upserts (snd (upload_batch upload_config_5 always_ok ''test'' items20 vectors20
                          True ''dense'' [])))
       = [[0, 1, 2, 3, 4], [5, 6, 7, 8, 9], [10, 11, 12, 13, 14], [15, 16, 17, 18, 19]]"
proof -
  have sizes: "length items20 = length vectors20"
    by (simp add: items20_def vectors20_def)
  have batch: "0 < batch_size upload_config_5"
    by (simp add: upload_config_5_def)
  have ok: "\<forall>j. always_ok j = None"
    by (simp add: always_ok_def)
  have retry: "enable_retry upload_config_5 \<longrightarrow> 1 \<le> max_retries upload_config_5"
    by (simp add: upload_config_5_def)
  have scenario: "length items20 = 20 \<and> batch_size upload_config_5 = 5
                    \<and> \<not> enable_retry upload_config_5"
    by (simp add: items20_def upload_config_5_def)
  note run = upload_batches [OF sizes batch ok retry, where name = "''test''" and nv = True
      and vn = "''dense''" and tr = "[]"]
  from run have result:
    "fst (upload_batch upload_config_5 always_ok ''test'' items20 vectors20 True ''dense'' [])
       = Inr (length items20)"
    by blast
  from run scenario have ids:
    "map (\<lambda>(c, pts). map point_id pts)
       (drop (length (upserts ([] :: nat event list)))
          (upserts (snd (upload_batch upload_config_5 always_ok ''test'' items20 vectors20
                           True ''dense'' []))))
       = [[0, 1, 2, 3, 4], [5, 6, 7, 8, 9], [10, 11, 12, 13, 14], [15, 16, 17, 18, 19]]"
    by blast
  then have ids': "map (\<lambda>(c, pts). map point_id pts)
         (upserts (snd (upload_batch upload_config_5 always_ok ''test'' items20 vectors20
                          True ''dense'' [])))
       = [[0, 1, 2, 3, 4], [5, 6, 7, 8, 9], [10, 11, 12, 13, 14], [15, 16, 17, 18, 19]]"
    by simp
  have "length (map (\<lambda>(c, pts). map point_id pts)
         (upserts (snd (upload_batch upload_config_5 always_ok ''test'' items20 vectors20
                          True ''dense'' [])))) = 4"
    unfolding ids' by simp
  then have calls: "length (upserts (snd (upload_batch upload_config_5 always_ok ''test'' items20
                               vectors20 True ''dense'' []))) = 4"
    by simp
  from sizes batch ok result scenario calls ids' show ?thesis by simp
qed

subsection \<open>Retry with linear backoff\<close>

text \<open>
  C2. When the upsert of a batch fails k times with a transient error and then succeeds,
  with k below \<open>max_retries\<close>, \<open>_upload_with_retry\<close> returns the number of points, and
  its events are: the k failed upserts of the same batch, each followed by a sleep, and
  the successful upsert. The sleeps are \<open>initial_backoff * 1\<close>, \<open>initial_backoff * 2\<close>,
  \<open>\<dots>\<close>, \<open>initial_backoff * k\<close>. In particular, with \<open>max_retries\<close> 3 and
  \<open>initial_backoff\<close> 2.0, a batch that fails twice and then succeeds sleeps 2 and then 4
  seconds between the three attempts. And an upload with retry enabled whose batches each
  recover within \<open>max_retries\<close> attempts returns the size of the corpus.
  (The products \<open>2.0 * 1\<close> and \<open>2.0 * 2\<close> are exact in binary floating point as well.)
\<close>

theorem retry_linear_backoff:
  "(int k < max_retries cfg
      \<and> (\<forall>j<k. \<exists>m. remote (length (upserts tr) + j) = Some (ResponseHandlingException m))
      \<and> remote (length (upserts tr) + k) = None
    \<longrightarrow> upload_with_retry cfg remote name pts bn tr
          = (Inr (length pts),
             tr @ Enter_upload_with_retry bn # attempts_trace (initial_backoff cfg) name pts 0 k)
        \<and> sleeps (attempts_trace (initial_backoff cfg) name pts 0 k)
            = map (\<lambda>j. initial_backoff cfg * real (j + 1)) [0..<k]
        \<and> upserts (attempts_trace (initial_backoff cfg) name pts 0 k)
            = replicate (k + 1) (name, pts))
   \<and> (max_retries cfg = 3 \<and> initial_backoff cfg = 2
        \<and> (\<exists>m. remote (length (upserts tr)) = Some (ResponseHandlingException m))
        \<and> (\<exists>m. remote (length (upserts tr) + 1) = Some (ResponseHandlingException m))
        \<and> remote (length (upserts tr) + 2) = None
      \<longrightarrow> upload_with_retry cfg remote name pts bn tr
            = (Inr (length pts),
               tr @ [Enter_upload_with_retry bn, Upsert name pts, Sleep 2, Upsert name pts,
                     Sleep 4, Upsert name pts]))
   \<and> (enable_retry cfg \<and> length ds = length es \<and> 0 < batch_size cfg
        \<and> length ks = batch_count cfg (length ds)
        \<and> (\<forall>k\<in>set ks. int k < max_retries cfg)
        \<and> script_recovers remote (length (upserts tr)) ks
      \<longrightarrow> upload_batch cfg remote name ds es nv vn tr
            = (Inr (length ds),
               tr @ retry_upload_trace cfg name ds es nv vn
                      (zip (map (\<lambda>k. int k * batch_size cfg) [0..<batch_count cfg (length ds)]) ks)))"
proof (intro conjI impI)
  assume h: "int k < max_retries cfg
      \<and> (\<forall>j<k. \<exists>m. remote (length (upserts tr) + j) = Some (ResponseHandlingException m))
      \<and> remote (length (upserts tr) + k) = None"
  then have fails: "\<And>j. j < k \<Longrightarrow>
      \<exists>m. remote (length (upserts tr) + j) = Some (ResponseHandlingException m)"
    by blast
  from fails h show "upload_with_retry cfg remote name pts bn tr
          = (Inr (length pts),
             tr @ Enter_upload_with_retry bn # attempts_trace (initial_backoff cfg) name pts 0 k)"
    by (intro upload_with_retry_recovers) simp_all
next
  show "sleeps (attempts_trace (initial_backoff cfg) name pts 0 k)
            = map (\<lambda>j. initial_backoff cfg * real (j + 1)) [0..<k]"
    by (simp add: sleeps_attempts_trace)
next
  show "upserts (attempts_trace (initial_backoff cfg) name pts 0 k) = replicate (k + 1) (name, pts)"
    by (simp add: upserts_attempts_trace)
next
  assume h: "max_retries cfg = 3 \<and> initial_backoff cfg = 2
        \<and> (\<exists>m. remote (length (upserts tr)) = Some (ResponseHandlingException m))
        \<and> (\<exists>m. remote (length (upserts tr) + 1) = Some (ResponseHandlingException m))
        \<and> remote (length (upserts tr) + 2) = None"
  have fails: "\<exists>m. remote (length (upserts tr) + j) = Some (ResponseHandlingException m)"
    if "j < 2" for j
  proof -
    from that have "j = 0 \<or> j = 1" by arith
    then show ?thesis using h by auto
  qed
  have "upload_with_retry cfg remote name pts bn tr
          = (Inr (length pts),
             tr @ Enter_upload_with_retry bn # attempts_trace (initial_backoff cfg) name pts 0 2)"
    using fails h by (intro upload_with_retry_recovers) simp_all
  then show "upload_with_retry cfg remote name pts bn tr
            = (Inr (length pts),
               tr @ [Enter_upload_with_retry bn, Upsert name pts, Sleep 2, Upsert name pts,
                     Sleep 4, Upsert name pts])"
    using h by (simp add: numeral_2_eq_2)
next
  assume "enable_retry cfg \<and> length ds = length es \<and> 0 < batch_size cfg
        \<and> length ks = batch_count cfg (length ds)
        \<and> (\<forall>k\<in>set ks. int k < max_retries cfg)
        \<and> script_recovers remote (length (upserts tr)) ks"
  then show "upload_batch cfg remote name ds es nv vn tr
            = (Inr (length ds),
               tr @ retry_upload_trace cfg name ds es nv vn
                      (zip (map (\<lambda>k. int k * batch_size cfg) [0..<batch_count cfg (length ds)]) ks))"
    by (intro upload_batch_recovers) simp_all
qed

theorem retry_linear_backoff_witness:
  "int 2 < max_retries (upload_config_retry 2 3)
   \<and> initial_backoff (upload_config_retry 2 3) = 2
   \<and> fails_twice 0 = Some (ResponseHandlingException ''Timeout'')
   \<and> fails_twice 1 = Some (ResponseHandlingException ''Timeout'')
   \<and> fails_twice 2 = None
   \<and> upload_with_retry (upload_config_retry 2 3) fails_twice ''test'' points1 0 []
       = (Inr 1, [Enter_upload_with_retry 0, Upsert ''test'' points1, Sleep 2,
                  Upsert ''test'' points1, Sleep 4, Upsert ''test'' points1])
   \<and> upload_batch (upload_config_retry 2 3) fails_twice ''test'' items3 vectors3 True ''dense'' []
       = (Inr 3,
          [Enter_upload_with_retry 0,
           Upsert ''test'' [\<lparr>point_id = 0, vector = Named ''dense'' [1, 0], payload = 10\<rparr>,
                            \<lparr>point_id = 1, vector = Named ''dense'' [0, 1], payload = 20\<rparr>],
           Sleep 2,
           Upsert ''test'' [\<lparr>point_id = 0, vector = Named ''dense'' [1, 0], payload = 10\<rparr>,
                            \<lparr>point_id = 1, vector = Named ''dense'' [0, 1], payload = 20\<rparr>],
           Sleep 4,
           Upsert ''test'' [\<lparr>point_id = 0, vector = Named ''dense'' [1, 0], payload = 10\<rparr>,
                            \<lparr>point_id = 1, vector = Named ''dense'' [0, 1], payload = 20\<rparr>],
           Enter_upload_with_retry 1,
           Upsert ''test'' [\<lparr>point_id = 2, vector = Named ''dense'' [1, 1], payload = 30\<rparr>]])"
proof -
  let ?cfg = "upload_config_retry 2 3"
  let ?tr = "[] :: nat event list"
  have script: "fails_twice 0 = Some (ResponseHandlingException ''Timeout'')"
    "fails_twice 1 = Some (ResponseHandlingException ''Timeout'')"
    "fails_twice 2 = None" "fails_twice 3 = None"
    by (simp_all add: fails_twice_def)
  have cfg: "max_retries ?cfg = 3" "initial_backoff ?cfg = 2" "enable_retry ?cfg"
    "batch_size ?cfg = 2"
    by (simp_all add: upload_config_retry_def)
  have two: "j < 2 \<Longrightarrow> j = 0 \<or> j = 1" for j :: nat by arith
  have one_batch: "int 2 < max_retries ?cfg
      \<and> (\<forall>j<2. \<exists>m. fails_twice (length (upserts ?tr) + j) = Some (ResponseHandlingException m))
      \<and> fails_twice (length (upserts ?tr) + 2) = None"
    by (auto simp: cfg fails_twice_def)
  have whole: "enable_retry ?cfg \<and> length items3 = length vectors3 \<and> 0 < batch_size ?cfg
        \<and> length [2, 0::nat] = batch_count ?cfg (length items3)
        \<and> (\<forall>k\<in>set [2, 0::nat]. int k < max_retries ?cfg)
        \<and> script_recovers fails_twice (length (upserts ?tr)) [2, 0]"
    by (auto simp: cfg items3_def vectors3_def batch_count_def fails_twice_def)
  note inst = retry_linear_backoff [where k = 2 and cfg = "?cfg" and remote = fails_twice
      and tr = "?tr" and name = "''test''" and pts = points1 and bn = 0 and ds = items3
      and es = vectors3 and ks = "[2, 0]" and nv = True and vn = "''dense''"]
  from inst one_batch have first:
    "upload_with_retry ?cfg fails_twice ''test'' points1 0 ?tr
       = (Inr (length points1),
          ?tr @ Enter_upload_with_retry 0 # attempts_trace (initial_backoff ?cfg) ''test'' points1 0 2)"
    by blast
  from inst whole have second:
    "upload_batch ?cfg fails_twice ''test'' items3 vectors3 True ''dense'' ?tr
       = (Inr (length items3),
          ?tr @ retry_upload_trace ?cfg ''test'' items3 vectors3 True ''dense''
                  (zip (map (\<lambda>k. int k * batch_size ?cfg) [0..<batch_count ?cfg (length items3)])
                     [2, 0]))"
    by blast
  have offsets: "map (\<lambda>k. int k * batch_size ?cfg) [0..<batch_count ?cfg (length items3)] = [0, 2]"
    by (simp add: cfg items3_def batch_count_def upt_rec)
  have b0: "batch_points ?cfg items3 vectors3 True ''dense'' 0
              = [\<lparr>point_id = 0, vector = Named ''dense'' [1, 0], payload = 10\<rparr>,
                 \<lparr>point_id = 1, vector = Named ''dense'' [0, 1], payload = 20\<rparr>]"
    and b1: "batch_points ?cfg items3 vectors3 True ''dense'' 2
              = [\<lparr>point_id = 2, vector = Named ''dense'' [1, 1], payload = 30\<rparr>]"
    by (simp_all add: batch_points_def cfg items3_def vectors3_def slice_def clamp_index_def
        prepare_points_def)
  have twice: "attempts_trace 2 n p 0 2 = [Upsert n p, Sleep 2, Upsert n p, Sleep 4, Upsert n p]"
    for n and p :: "nat PointStruct list"
    by (simp add: numeral_2_eq_2)
  have lens: "length points1 = 1" "length items3 = 3"
    by (simp_all add: points1_def items3_def)
  show ?thesis
    unfolding first second offsets
    by (simp add: cfg b0 b1 twice lens fails_twice_def)
qed

subsection \<open>Exhausted retries\<close>

text \<open>
  C3, as amended. With \<open>max_retries\<close> 2 and an upsert that always fails with a transient
  error, one call of \<open>_upload_with_retry\<close> issues the upsert exactly twice, with one sleep
  of \<open>initial_backoff * 1\<close> between the two, and raises the error of the second attempt
  again, unchanged. An upload with retry enabled of a corpus that is not empty enters
  \<open>_upload_with_retry\<close> once, for the first batch, and ends with that error: no later
  batch is attempted.
\<close>

theorem retry_exhausted_reraises:
  assumes "max_retries cfg = 2"
    and "\<forall>j. remote j = Some (ResponseHandlingException (msg j))"
  shows "upload_with_retry cfg remote name pts bn tr
           = (Inl (ResponseHandlingException (msg (length (upserts tr) + 1))),
              tr @ [Enter_upload_with_retry bn, Upsert name pts,
                    Sleep (initial_backoff cfg * 1), Upsert name pts])
       \<and> (enable_retry cfg \<and> length ds = length es \<and> ds \<noteq> [] \<and> 0 < batch_size cfg
          \<longrightarrow> upload_batch cfg remote name ds es nv vn tr
                = (Inl (ResponseHandlingException (msg (length (upserts tr) + 1))),
                   tr @ [Enter_upload_with_retry 0,
                         Upsert name (batch_points cfg ds es nv vn 0),
                         Sleep (initial_backoff cfg * 1),
                         Upsert name (batch_points cfg ds es nv vn 0)]))"
proof (intro conjI impI)
  have "upload_with_retry cfg remote name pts bn tr
           = (Inl (ResponseHandlingException (msg (length (upserts tr) + 1))),
              tr @ Enter_upload_with_retry bn # attempts_trace (initial_backoff cfg) name pts 0 1)"
    using assms
    by (intro upload_with_retry_exhausted [where msg = "\<lambda>j. msg (length (upserts tr) + j)"])
      simp_all
  then show "upload_with_retry cfg remote name pts bn tr
           = (Inl (ResponseHandlingException (msg (length (upserts tr) + 1))),
              tr @ [Enter_upload_with_retry bn, Upsert name pts,
                    Sleep (initial_backoff cfg * 1), Upsert name pts])"
    by simp
next
  assume h: "enable_retry cfg \<and> length ds = length es \<and> ds \<noteq> [] \<and> 0 < batch_size cfg"
  have "upload_batch cfg remote name ds es nv vn tr
           = (Inl (ResponseHandlingException (msg (length (upserts tr) + 1))),
              tr @ Enter_upload_with_retry 0
                 # attempts_trace (initial_backoff cfg) name (batch_points cfg ds es nv vn 0) 0 1)"
    using h assms by (intro upload_batch_exhausted) simp_all
  then show "upload_batch cfg remote name ds es nv vn tr
                = (Inl (ResponseHandlingException (msg (length (upserts tr) + 1))),
                   tr @ [Enter_upload_with_retry 0,
                         Upsert name (batch_points cfg ds es nv vn 0),
                         Sleep (initial_backoff cfg * 1),
                         Upsert name (batch_points cfg ds es nv vn 0)])"
    by simp
qed

theorem retry_exhausted_reraises_witness:
  "max_retries (upload_config_retry 50 2) = 2
   \<and> (\<forall>j. always_timeout j = Some (ResponseHandlingException ''Timeout''))
   \<and> upload_with_retry (upload_config_retry 50 2) always_timeout ''test'' points1 0 []
       = (Inl (ResponseHandlingException ''Timeout''),
          [Enter_upload_with_retry 0, Upsert ''test'' points1, Sleep 2, Upsert ''test'' points1])
   \<and> upload_batch (upload_config_retry 50 2) always_timeout ''test'' one_item one_vector
         False ''dense'' []
       = (Inl (ResponseHandlingException ''Timeout''),
          [Enter_upload_with_retry 0,
           Upsert ''test'' [\<lparr>point_id = 0, vector = Unnamed [1, 0], payload = 7\<rparr>],
           Sleep 2,
           Upsert ''test'' [\<lparr>point_id = 0, vector = Unnamed [1, 0], payload = 7\<rparr>]])"
proof -
  let ?cfg = "upload_config_retry 50 2"
  let ?tr = "[] :: nat event list"
  have cfg: "max_retries ?cfg = 2" "initial_backoff ?cfg = 2" "enable_retry ?cfg"
    "batch_size ?cfg = 50"
    by (simp_all add: upload_config_retry_def)
  have script: "\<forall>j. always_timeout j = Some (ResponseHandlingException ((\<lambda>j. ''Timeout'') j))"
    by (simp add: always_timeout_def)
  have whole: "enable_retry ?cfg \<and> length one_item = length one_vector \<and> one_item \<noteq> []
                 \<and> 0 < batch_size ?cfg"
    by (simp add: cfg one_item_def one_vector_def)
  note inst = retry_exhausted_reraises [OF cfg(1) script, where tr = "?tr" and name = "''test''"
      and pts = points1 and bn = 0 and ds = one_item and es = one_vector and nv = False
      and vn = "''dense''"]
  from inst have first:
    "upload_with_retry ?cfg always_timeout ''test'' points1 0 ?tr
       = (Inl (ResponseHandlingException ''Timeout''),
          ?tr @ [Enter_upload_with_retry 0, Upsert ''test'' points1,
                 Sleep (initial_backoff ?cfg * 1), Upsert ''test'' points1])"
    by blast
  from inst whole have second:
    "upload_batch ?cfg always_timeout ''test'' one_item one_vector False ''dense'' ?tr
       = (Inl (ResponseHandlingException ''Timeout''),
          ?tr @ [Enter_upload_with_retry 0,
                 Upsert ''test'' (batch_points ?cfg one_item one_vector False ''dense'' 0),
                 Sleep (initial_backoff ?cfg * 1),
                 Upsert ''test'' (batch_points ?cfg one_item one_vector False ''dense'' 0)])"
    by blast
  have b0: "batch_points ?cfg one_item one_vector False ''dense'' 0
              = [\<lparr>point_id = 0, vector = Unnamed [1, 0], payload = 7\<rparr>]"
    by (simp add: batch_points_def cfg one_item_def one_vector_def slice_def clamp_index_def
        prepare_points_def)
  show ?thesis
    unfolding first second
    by (simp add: cfg b0 always_timeout_def)
qed

text \<open>
  C3 as stated has \<open>_upload_with_retry\<close> invoked exactly 2 times. On a corpus of one item
  the upload enters \<open>_upload_with_retry\<close> once; what happens twice is the upsert call
  inside it.
\<close>

theorem retry_invocations_counterexample:
  "retry_entries (snd (upload_batch (upload_config_retry 50 2) always_timeout ''test''
                         one_item one_vector False ''dense'' [])) = [0]
   \<and> length (retry_entries (snd (upload_batch (upload_config_retry 50 2) always_timeout ''test''
                                   one_item one_vector False ''dense'' []))) \<noteq> 2
   \<and> length (upserts (snd (upload_batch (upload_config_retry 50 2) always_timeout ''test''
                              one_item one_vector False ''dense'' []))) = 2
   \<and> fst (upload_batch (upload_config_retry 50 2) always_timeout ''test''
            one_item one_vector False ''dense'' [])
       = Inl (ResponseHandlingException ''Timeout'')"
  by (simp add: upload_batch_def range3_def upload_config_retry_def always_timeout_def
      one_item_def one_vector_def upt_rec upload_with_retry_def range1_def client_upsert_def
      slice_def clamp_index_def prepare_points_def Let_def)

section \<open>Properties of the benchmark\<close>

subsection \<open>Percentiles\<close>

lemma lerp_bounds:
  assumes "sorted s" and "0 \<le> h" and "h \<le> real (length s - 1)" and "s \<noteq> []"
  shows "s ! nat \<lfloor>h\<rfloor> \<le> lerp s h"
    and "nat \<lfloor>h\<rfloor> + 1 < length s \<Longrightarrow> lerp s h \<le> s ! (nat \<lfloor>h\<rfloor> + 1)"
proof -
  let ?i = "nat \<lfloor>h\<rfloor>"
  have f0: "0 \<le> h - real ?i" using assms(2) by (simp add: of_nat_nat) 
  have f1: "h - real ?i \<le> 1" using assms(2) by (simp add: of_nat_nat) linarith
  show "s ! ?i \<le> lerp s h"
  proof (cases "?i + 1 < length s")
    case True
    then have "s ! ?i \<le> s ! (?i + 1)" using assms(1) by (intro sorted_nth_mono) simp_all
    then have "0 \<le> (h - real ?i) * (s ! (?i + 1) - s ! ?i)" using f0 by simp
    then show ?thesis using True by (simp add: lerp_def)
  next
    case False
    then show ?thesis by (simp add: lerp_def)
  qed
  show "lerp s h \<le> s ! (?i + 1)" if lt: "?i + 1 < length s"
  proof -
    have d: "0 \<le> s ! (?i + 1) - s ! ?i"
      using assms(1) lt by (simp add: sorted_nth_mono)
    have "(h - real ?i) * (s ! (?i + 1) - s ! ?i) \<le> 1 * (s ! (?i + 1) - s ! ?i)"
      using f1 d by (rule mult_right_mono)
    then show ?thesis using lt by (simp add: lerp_def)
  qed
qed

lemma lerp_mono:
  assumes "sorted s" and "0 \<le> h" and "h \<le> h'" and "h' \<le> real (length s - 1)" and "s \<noteq> []"
  shows "lerp s h \<le> lerp s h'"
proof -
  let ?i = "nat \<lfloor>h\<rfloor>" and ?j = "nat \<lfloor>h'\<rfloor>"
  have ij: "?i \<le> ?j" using assms(3) by (simp add: floor_mono nat_mono)
  have jn: "?j < length s"
  proof -
    have "\<lfloor>h'\<rfloor> \<le> int (length s - 1)" using assms(4) by (simp add: floor_le_iff)
    then have "?j \<le> length s - 1" by simp
    then show ?thesis using assms(5) by (cases s) simp_all
  qed
  show ?thesis
  proof (cases "?i = ?j")
    case True
    show ?thesis
    proof (cases "?i + 1 < length s")
      case lt: True
      have d: "0 \<le> s ! (?i + 1) - s ! ?i"
        using assms(1) lt by (simp add: sorted_nth_mono)
      have "(h - real ?i) * (s ! (?i + 1) - s ! ?i) \<le> (h' - real ?i) * (s ! (?i + 1) - s ! ?i)"
        using assms(3) d by (intro mult_right_mono) simp_all
      then show ?thesis using lt True by (simp add: lerp_def)
    next
      case False
      then show ?thesis using True by (simp add: lerp_def)
    qed
  next
    case False
    then have lt: "?i + 1 \<le> ?j" using ij by simp
    then have "?i + 1 < length s" using jn by simp
    then have "lerp s h \<le> s ! (?i + 1)"
      using lerp_bounds(2) [OF assms(1,2) _ assms(5)] assms(3,4) by simp
    also have "\<dots> \<le> s ! ?j" using assms(1) lt jn by (intro sorted_nth_mono) simp_all
    also have "\<dots> \<le> lerp s h'"
      using assms(2,3,4) by (intro lerp_bounds(1) [OF assms(1) _ _ assms(5)]) simp_all
    finally show ?thesis .
  qed
qed

lemma np_percentile_lerp:
  assumes "xs \<noteq> []" and "0 \<le> q" and "q \<le> 100"
  shows "np_percentile xs q = Some (lerp (sort xs) (real (length xs - 1) * q / 100))"
  using assms by (simp add: np_percentile_def lerp_def Let_def)

lemma np_percentile_mono:
  assumes "xs \<noteq> []" and "0 \<le> q" and "q \<le> q'" and "q' \<le> 100"
  shows "\<exists>v v'. np_percentile xs q = Some v \<and> np_percentile xs q' = Some v' \<and> v \<le> v'"
proof -
  let ?n = "real (length xs - 1)"
  have "lerp (sort xs) (?n * q / 100) \<le> lerp (sort xs) (?n * q' / 100)"
  proof (rule lerp_mono)
    show "sorted (sort xs)" by simp
    show "0 \<le> ?n * q / 100" using assms(2) by simp
    show "?n * q / 100 \<le> ?n * q' / 100"
      using assms(3) by (simp add: mult_left_mono divide_right_mono)
    have "?n * q' \<le> ?n * 100" using assms(4) by (intro mult_left_mono) simp_all
    then show "?n * q' / 100 \<le> real (length (sort xs) - 1)" by simp
    show "sort xs \<noteq> []" using assms(1) by (metis length_sort length_0_conv)
  qed
  then show ?thesis
    using assms by (simp add: np_percentile_lerp)
qed

lemma calculate_metrics_nonempty:
  assumes "latencies \<noteq> []"
  shows "\<exists>m. calculate_metrics latencies = Some m"
  using assms by (simp add: calculate_metrics_def np_mean_def np_percentile_lerp)

text \<open>
  The values the repository's test of \<open>_calculate_metrics\<close> expects of numpy, for the
  latencies 10, 20, \<open>\<dots>\<close>, 100: average and median 55, p90 91, p99 99.1.
\<close>

lemma calculate_metrics_test_values:
  "calculate_metrics [10, 20, 30, 40, 50, 60, 70, 80, 90, 100]
     = Some \<lparr> avg = 55, p50 = 55, p90 = 91, p95 = 95.5, p99 = 99.1, p99_5 = 99.55, p99_9 = 99.91 \<rparr>"
  by code_simp

text \<open>
  C5. For every latency sample of at least two values the metric bundle is defined and
  its percentiles are ordered: p50 \<open>\<le>\<close> p90 \<open>\<le>\<close> p95 \<open>\<le>\<close> p99 \<open>\<le>\<close> p99.5 \<open>\<le>\<close> p99.9.
  The percentile is the linear interpolation between ranks, over the reals.
\<close>

theorem metrics_percentiles_ordered:
  assumes "2 \<le> length S"
  shows "\<exists>m. calculate_metrics S = Some m
           \<and> p50 m \<le> p90 m \<and> p90 m \<le> p95 m \<and> p95 m \<le> p99 m
           \<and> p99 m \<le> p99_5 m \<and> p99_5 m \<le> p99_9 m"
proof -
  have ne: "S \<noteq> []" using assms by auto
  have step: "lerp (sort S) (real (length S - 1) * q / 100)
                \<le> lerp (sort S) (real (length S - 1) * q' / 100)"
    if "0 \<le> q" "q \<le> q'" "q' \<le> 100" for q q'
    using np_percentile_mono [OF ne that] that ne by (simp add: np_percentile_lerp)
  have "lerp (sort S) (real (length S - 1) * 50 / 100) \<le> lerp (sort S) (real (length S - 1) * 90 / 100)"
    by (rule step) simp_all
  moreover have "lerp (sort S) (real (length S - 1) * 90 / 100) \<le> lerp (sort S) (real (length S - 1) * 95 / 100)"
    by (rule step) simp_all
  moreover have "lerp (sort S) (real (length S - 1) * 95 / 100) \<le> lerp (sort S) (real (length S - 1) * 99 / 100)"
    by (rule step) simp_all
  moreover have "lerp (sort S) (real (length S - 1) * 99 / 100) \<le> lerp (sort S) (real (length S - 1) * 99.5 / 100)"
    by (rule step) simp_all
  moreover have "lerp (sort S) (real (length S - 1) * 99.5 / 100) \<le> lerp (sort S) (real (length S - 1) * 99.9 / 100)"
    by (rule step) simp_all
  ultimately show ?thesis
    using ne by (simp add: calculate_metrics_def np_mean_def np_percentile_lerp)
qed

theorem metrics_percentiles_ordered_witness:
  "2 \<le> length [20, 10 :: real]
   \<and> calculate_metrics [20, 10]
       = Some \<lparr> avg = 15, p50 = 15, p90 = 19, p95 = 19.5, p99 = 19.9, p99_5 = 19.95,
                p99_9 = 19.99 \<rparr>
   \<and> (\<exists>m. calculate_metrics [20, 10] = Some m
           \<and> p50 m \<le> p90 m \<and> p90 m \<le> p95 m \<and> p95 m \<le> p99 m
           \<and> p99 m \<le> p99_5 m \<and> p99_5 m \<le> p99_9 m)"
proof -
  have size: "2 \<le> length [20, 10 :: real]" by simp
  have val: "calculate_metrics [20, 10]
       = Some \<lparr> avg = 15, p50 = 15, p90 = 19, p95 = 19.5, p99 = 19.9, p99_5 = 19.95,
                p99_9 = 19.99 \<rparr>"
    by code_simp
  from size val metrics_percentiles_ordered [OF size] show ?thesis by blast
qed

subsection \<open>Warmup and the number of queries\<close>

lemma queries_append: "queries (xs @ ys) = queries xs @ queries ys"
  by (induction xs rule: queries.induct) simp_all

lemma time_reads_append: "time_reads (xs @ ys) = time_reads xs + time_reads ys"
  by (induction xs rule: time_reads.induct) simp_all

lemma length_samples: "length (samples env t n) = n"
  by (induction n arbitrary: t) simp_all

lemma queries_timed_queries:
  "queries (timed_queries cfg env name using sp qs) = map (query_for cfg env name using sp) qs"
  by (induction qs) (simp_all add: timed_queries_def)

lemma time_reads_timed_queries:
  "time_reads (timed_queries cfg env name using sp qs) = 2 * length qs"
  by (induction qs) (simp_all add: timed_queries_def)

lemma time_reads_warmup_events: "time_reads (warmup_events cfg env name using) = 0"
  by (simp add: warmup_events_def)

lemma latency_loop_ok:
  assumes "\<forall>k. \<exists>r. query_outcome env k = Inr r"
  shows "latency_loop cfg env name using sp qs lat tr
           = (Inr (lat @ samples env (time_reads tr) (length qs)),
              tr @ timed_queries cfg env name using sp qs)"
proof (induction qs arbitrary: lat tr)
  case Nil
  show ?case by (simp add: timed_queries_def)
next
  case (Cons q qs)
  let ?p = "query_for cfg env name using sp q"
  let ?tr3 = "tr @ [Time_time, Query_points ?p, Time_time]"
  let ?lat = "lat @ [(clock env (Suc (time_reads tr)) - clock env (time_reads tr)) * 1000]"
  obtain r where r: "query_outcome env (length (queries tr)) = Inr r"
    using assms by blast
  have "latency_loop cfg env name using sp (q # qs) lat tr
          = latency_loop cfg env name using sp qs ?lat ?tr3"
    using r
    by (simp add: time_time_def client_query_points_def query_for_def queries_append
        time_reads_append Let_def)
  also have "\<dots> = (Inr (?lat @ samples env (time_reads ?tr3) (length qs)),
                     ?tr3 @ timed_queries cfg env name using sp qs)"
    by (rule Cons.IH)
  finally show ?case
    by (simp add: time_reads_append timed_queries_def)
qed

lemma warmup_ok:
  assumes "\<forall>k. \<exists>r. query_outcome env k = Inr r"
  shows "warmup cfg env name using tr = (None, tr @ warmup_events cfg env name using)"
proof -
  obtain r where "query_outcome env (length (queries tr)) = Inr r"
    using assms by blast
  then show ?thesis
    by (simp add: warmup_def warmup_events_def warmup_query_def client_query_points_def Let_def)
qed

lemma measure_search_latency_ok:
  assumes "\<forall>k. \<exists>r. query_outcome env k = Inr r"
  shows "measure_search_latency cfg env name (Some qs) using sp tr
           = (Inr (calculate_metrics (samples env (time_reads tr) (length qs))),
              tr @ warmup_events cfg env name using @ timed_queries cfg env name using sp qs)"
proof -
  have "time_reads (tr @ warmup_events cfg env name using) = time_reads tr"
    by (simp add: time_reads_append warmup_events_def)
  then show ?thesis
    by (simp add: measure_search_latency_def warmup_ok [OF assms] latency_loop_ok [OF assms])
qed

lemma steady_env_ok: "\<forall>k. \<exists>r. query_outcome steady_env k = Inr r"
  by (simp add: steady_env_def)

lemma steady_samples:
  "calculate_metrics (samples steady_env (time_reads [])
                        (length [''query1'', ''query2'', ''query3'']))
     = Some \<lparr> avg = 1, p50 = 1, p90 = 1, p95 = 1, p99 = 1, p99_5 = 1, p99_9 = 1 \<rparr>"
  by code_simp

text \<open>
  C6. When every query call succeeds, a latency run over N test queries adds to the trace
  the warmup query, if warmup is enabled, and then for each test query, in order, a clock
  reading, the query and a clock reading. So it issues N query calls with warmup disabled
  and N + 1 with warmup enabled. The warmup query stands before the first clock reading,
  and the metrics are computed from N samples, each the difference of the two readings
  around one test query: they depend neither on the warmup nor on any response.
\<close>

theorem latency_run_query_count:
  assumes "\<forall>k. \<exists>r. query_outcome env k = Inr r"
  shows "measure_search_latency cfg env name (Some qs) selector sp tr
           = (Inr (calculate_metrics (samples env (time_reads tr) (length qs))),
              tr @ warmup_events cfg env name selector @ timed_queries cfg env name selector sp qs)
       \<and> length (queries (snd (measure_search_latency cfg env name (Some qs) selector sp tr)))
           = length (queries tr) + (if warmup_enabled cfg then length qs + 1 else length qs)
       \<and> queries (warmup_events cfg env name selector)
           = (if warmup_enabled cfg then [warmup_query cfg env name selector] else [])
       \<and> time_reads (warmup_events cfg env name selector) = 0
       \<and> queries (timed_queries cfg env name selector sp qs) = map (query_for cfg env name selector sp) qs
       \<and> length (samples env (time_reads tr) (length qs)) = length qs"
  by (simp add: measure_search_latency_ok [OF assms] queries_append queries_timed_queries
      length_samples warmup_events_def)

theorem latency_run_query_count_witness:
  "(\<forall>k. \<exists>r. query_outcome steady_env k = Inr r)
   \<and> length (queries (snd (measure_search_latency (bench_config False) steady_env ''test''
                             (Some [''query1'', ''query2'', ''query3'']) (Some ''dense'') None []))) = 3
   \<and> length (queries (snd (measure_search_latency (bench_config True) steady_env ''test''
                             (Some [''query1'', ''query2'', ''query3'']) (Some ''dense'') None []))) = 4
   \<and> fst (measure_search_latency (bench_config True) steady_env ''test''
            (Some [''query1'', ''query2'', ''query3'']) (Some ''dense'') None [])
       = Inr (Some \<lparr> avg = 1, p50 = 1, p90 = 1, p95 = 1, p99 = 1, p99_5 = 1, p99_9 = 1 \<rparr>)
   \<and> fst (measure_search_latency (bench_config False) steady_env ''test''
            (Some [''query1'', ''query2'', ''query3'']) (Some ''dense'') None [])
       = Inr (Some \<lparr> avg = 1, p50 = 1, p90 = 1, p95 = 1, p99 = 1, p99_5 = 1, p99_9 = 1 \<rparr>)"
proof -
  let ?qs = "[''query1'', ''query2'', ''query3'']"
  have w: "warmup_enabled (bench_config True)" "\<not> warmup_enabled (bench_config False)"
    by (simp_all add: bench_config_def)
  note with_warmup = latency_run_query_count [OF steady_env_ok, where cfg = "bench_config True"
      and name = "''test''" and qs = "?qs" and selector = "Some ''dense''" and sp = None
      and tr = "[]"]
  note without_warmup = latency_run_query_count [OF steady_env_ok, where cfg = "bench_config False"
      and name = "''test''" and qs = "?qs" and selector = "Some ''dense''" and sp = None
      and tr = "[]"]
  from with_warmup [THEN conjunct1] have r1:
    "fst (measure_search_latency (bench_config True) steady_env ''test'' (Some ?qs)
            (Some ''dense'') None [])
       = Inr (calculate_metrics (samples steady_env (time_reads []) (length ?qs)))"
    by simp
  from with_warmup [THEN conjunct2, THEN conjunct1] w have c1:
    "length (queries (snd (measure_search_latency (bench_config True) steady_env ''test''
                             (Some ?qs) (Some ''dense'') None []))) = 4"
    by simp
  from without_warmup [THEN conjunct1] have r0:
    "fst (measure_search_latency (bench_config False) steady_env ''test'' (Some ?qs)
            (Some ''dense'') None [])
       = Inr (calculate_metrics (samples steady_env (time_reads []) (length ?qs)))"
    by simp
  from without_warmup [THEN conjunct2, THEN conjunct1] w have c0:
    "length (queries (snd (measure_search_latency (bench_config False) steady_env ''test''
                             (Some ?qs) (Some ''dense'') None []))) = 3"
    by simp
  show ?thesis
    unfolding r1 r0 c1 c0 steady_samples using steady_env_ok by simp
qed

subsection \<open>The comparison of rescoring modes\<close>

lemma rescoring_loop_latency_loop:
  "rescoring_loop cfg env collection_name qs lat tr
     = latency_loop (cfg\<lparr>warmup_enabled := w\<rparr>) env collection_name None (Some default_rescoring) qs lat tr"
  by (induction qs arbitrary: lat tr)
    (simp_all add: default_rescoring_def truthy_def Let_def split: prod.splits sum.splits)

lemma benchmark_quantization_second_pass:
  "benchmark_quantization cfg env collection_name queries_arg tr
     = protocol_then_rescoring_pass cfg env collection_name queries_arg tr"
  by (cases queries_arg)
    (simp_all add: benchmark_quantization_def protocol_then_rescoring_pass_def measure_search_latency_def
      warmup_def rescoring_loop_latency_loop [where w = False] Let_def
      split: prod.splits sum.splits option.splits)

lemma benchmark_quantization_ok:
  assumes "\<forall>k. \<exists>r. query_outcome env k = Inr r"
  shows "benchmark_quantization cfg env name (Some qs) tr
           = (Inr [''no_rescoring'' \<mapsto> calculate_metrics (samples env (time_reads tr) (length qs)),
                   ''with_rescoring'' \<mapsto>
                      calculate_metrics (samples env (time_reads tr + 2 * length qs) (length qs))],
              tr @ warmup_events cfg env name None
                 @ timed_queries cfg env name None None qs
                 @ timed_queries cfg env name None (Some default_rescoring) qs)"
proof -
  have q: "timed_queries (cfg\<lparr>warmup_enabled := False\<rparr>) env name None (Some default_rescoring) qs
             = timed_queries cfg env name None (Some default_rescoring) qs"
    by (simp add: timed_queries_def query_for_def)
  have w: "warmup_events (cfg\<lparr>warmup_enabled := False\<rparr>) env name None = []"
    by (simp add: warmup_events_def)
  show ?thesis
    unfolding benchmark_quantization_second_pass protocol_then_rescoring_pass_def
    by (simp add: measure_search_latency_ok [OF assms] q w time_reads_append
        time_reads_timed_queries time_reads_warmup_events)
qed

lemma steady_samples_first:
  "calculate_metrics (samples steady_env (time_reads []) (length [''query1'', ''query2'']))
     = Some \<lparr> avg = 1, p50 = 1, p90 = 1, p95 = 1, p99 = 1, p99_5 = 1, p99_9 = 1 \<rparr>"
  by code_simp

lemma steady_samples_second:
  "calculate_metrics (samples steady_env (time_reads [] + 2 * length [''query1'', ''query2''])
                        (length [''query1'', ''query2'']))
     = Some \<lparr> avg = 1, p50 = 1, p90 = 1, p95 = 1, p99 = 1, p99_5 = 1, p99_9 = 1 \<rparr>"
  by code_simp

text \<open>
  C9, as amended. \<open>benchmark_quantization\<close> runs the latency protocol once as configured
  (warmup if enabled, measuring, reducing) without search parameters, and then a second
  measuring and reducing pass over the same queries, against the same collection, with
  rescoring enabled at oversampling 3.0 and without a warmup query. When every query call
  succeeds it returns the two metric bundles under the keys \<open>no_rescoring\<close> and
  \<open>with_rescoring\<close>, the first from the first N pairs of clock readings and the second
  from the next N.
\<close>

theorem benchmark_quantization_passes:
  "benchmark_quantization cfg env name queries_arg tr
     = protocol_then_rescoring_pass cfg env name queries_arg tr
   \<and> ((\<forall>k. \<exists>r. query_outcome env k = Inr r) \<longrightarrow>
        benchmark_quantization cfg env name (Some qs) tr
          = (Inr [''no_rescoring'' \<mapsto> calculate_metrics (samples env (time_reads tr) (length qs)),
                  ''with_rescoring'' \<mapsto>
                     calculate_metrics (samples env (time_reads tr + 2 * length qs) (length qs))],
             tr @ warmup_events cfg env name None
                @ timed_queries cfg env name None None qs
                @ timed_queries cfg env name None (Some default_rescoring) qs))"
  using benchmark_quantization_second_pass benchmark_quantization_ok by blast

theorem benchmark_quantization_passes_witness:
  "(\<forall>k. \<exists>r. query_outcome steady_env k = Inr r)
   \<and> fst (benchmark_quantization (bench_config True) steady_env ''quantized_test''
            (Some [''query1'', ''query2'']) [])
       = Inr [''no_rescoring'' \<mapsto>
                Some \<lparr> avg = 1, p50 = 1, p90 = 1, p95 = 1, p99 = 1, p99_5 = 1, p99_9 = 1 \<rparr>,
              ''with_rescoring'' \<mapsto>
                Some \<lparr> avg = 1, p50 = 1, p90 = 1, p95 = 1, p99 = 1, p99_5 = 1, p99_9 = 1 \<rparr>]
   \<and> map q_search_params
         (queries (snd (benchmark_quantization (bench_config True) steady_env ''quantized_test''
                          (Some [''query1'', ''query2'']) [])))
       = [None, None, None, Some default_rescoring, Some default_rescoring]"
proof -
  let ?qs = "[''query1'', ''query2'']"
  note inst = benchmark_quantization_passes [where cfg = "bench_config True" and env = steady_env
      and name = "''quantized_test''" and qs = "?qs" and tr = "[]", THEN conjunct2, THEN mp,
      OF steady_env_ok]
  have r: "fst (benchmark_quantization (bench_config True) steady_env ''quantized_test''
                  (Some ?qs) [])
       = Inr [''no_rescoring'' \<mapsto>
                Some \<lparr> avg = 1, p50 = 1, p90 = 1, p95 = 1, p99 = 1, p99_5 = 1, p99_9 = 1 \<rparr>,
              ''with_rescoring'' \<mapsto>
                Some \<lparr> avg = 1, p50 = 1, p90 = 1, p95 = 1, p99 = 1, p99_5 = 1, p99_9 = 1 \<rparr>]"
    unfolding inst fst_conv steady_samples_first steady_samples_second ..
  have q: "map q_search_params
         (queries (snd (benchmark_quantization (bench_config True) steady_env ''quantized_test''
                          (Some ?qs) [])))
       = [None, None, None, Some default_rescoring, Some default_rescoring]"
    unfolding inst
    by (simp add: queries_append queries_timed_queries warmup_events_def bench_config_def
        warmup_query_def query_for_def)
  from steady_env_ok r q show ?thesis by blast
qed

text \<open>
  C9 as stated runs the full protocol twice. With warmup enabled and one test query the
  code issues three queries, where two full runs issue four: the second pass has no
  warmup.
\<close>

theorem benchmark_quantization_counterexample:
  "length (queries (snd (benchmark_quantization (bench_config True) steady_env ''quantized_test''
                           (Some [''query1'']) []))) = 3
   \<and> length (queries (snd (spec_protocol_twice (bench_config True) steady_env ''quantized_test''
                             (Some [''query1'']) []))) = 4
   \<and> benchmark_quantization (bench_config True) steady_env ''quantized_test'' (Some [''query1'']) []
       \<noteq> spec_protocol_twice (bench_config True) steady_env ''quantized_test'' (Some [''query1'']) []"
proof -
  have a: "length (queries (snd (benchmark_quantization (bench_config True) steady_env
                                   ''quantized_test'' (Some [''query1'']) []))) = 3"
    by (simp add: benchmark_quantization_def measure_search_latency_def warmup_def
        client_query_points_def time_time_def bench_config_def steady_env_def Let_def)
  have b: "length (queries (snd (spec_protocol_twice (bench_config True) steady_env
                                   ''quantized_test'' (Some [''query1'']) []))) = 4"
    by (simp add: spec_protocol_twice_def measure_search_latency_def warmup_def
        client_query_points_def time_time_def bench_config_def steady_env_def Let_def)
  from a b show ?thesis by auto
qed

subsection \<open>The accuracy score\<close>

text \<open>
  C7. The accuracy score is the number of identifiers common to the baseline set and the
  candidate set over the number of baseline identifiers, and 0 when the baseline set is
  empty, whatever the candidate set. It lies between 0 and 1. The baseline 1 to 5 against
  the candidate 1, 2, 3, 6, 7 gives 0.6.
\<close>

theorem accuracy_score:
  "accuracy baseline candidate
     = (if set baseline = {} then 0
        else real (card (set baseline \<inter> set candidate)) / real (card (set baseline)))
   \<and> 0 \<le> accuracy baseline candidate
   \<and> accuracy baseline candidate \<le> 1
   \<and> accuracy [] candidate = 0
   \<and> accuracy [1, 2, 3, 4, 5] [1, 2, 3, 6, 7] = 6 / 10"
proof -
  have "card (set baseline \<inter> set candidate) \<le> card (set baseline)"
    by (intro card_mono) simp_all
  then have "real (card (set baseline \<inter> set candidate)) / real (card (set baseline)) \<le> 1"
    by (cases "baseline = []") (simp_all add: divide_le_eq_1 card_gt_0_iff)
  moreover have "accuracy [1, 2, 3, 4, 5] [1, 2, 3, 6, 7] = 6 / 10"
    by (simp add: accuracy_def)
  ultimately show ?thesis
    by (simp add: accuracy_def Let_def)
qed

theorem accuracy_score_witness:
  "accuracy [0, 1, 2, 3, 4, 5, 6, 7, 8, 9] [0, 1, 2, 3, 4, 5, 6, 7, 20, 21] = 8 / 10
   \<and> 0 \<le> accuracy [0, 1, 2, 3, 4, 5, 6, 7, 8, 9] [0, 1, 2, 3, 4, 5, 6, 7, 20, 21]
   \<and> accuracy [0, 1, 2, 3, 4, 5, 6, 7, 8, 9] [0, 1, 2, 3, 4, 5, 6, 7, 20, 21] \<le> 1
   \<and> accuracy [] [1, 2, 3] = 0"
proof -
  have "accuracy [0, 1, 2, 3, 4, 5, 6, 7, 8, 9] [0, 1, 2, 3, 4, 5, 6, 7, 20, 21] = 8 / 10"
    by (simp add: accuracy_def)
  then show ?thesis
    using accuracy_score [of "[0, 1, 2, 3, 4, 5, 6, 7, 8, 9]" "[0, 1, 2, 3, 4, 5, 6, 7, 20, 21]"]
      accuracy_score [of "[]" "[1, 2, 3]"]
    by simp
qed

section \<open>Properties of the collection manager\<close>

lemma recreate_quantized_without_config:
  "recreate_collection mgr name ''quantized'' None w
     = (Some (ValueError Quantization_config_required), delete_collection name w)"
  by (simp add: recreate_collection_def)

lemma recreate_collection_kinds:
  "recreate_collection mgr name ''hybrid'' qc w
     = (None, create_hybrid_collection mgr name (delete_collection name w))"
  "recreate_collection mgr name ''quantized'' (Some q) w
     = (None, create_quantized_collection mgr name q (delete_collection name w))"
  "kind \<noteq> ''hybrid'' \<Longrightarrow> kind \<noteq> ''quantized'' \<Longrightarrow>
   recreate_collection mgr name kind qc w
     = (None, create_standard_collection mgr name (delete_collection name w))"
  by (simp_all add: recreate_collection_def)

text \<open>
  C8. \<open>recreate_collection\<close> deletes the collection if it exists and then creates it by
  kind. For the quantized kind without a quantization configuration the
  \<open>ValueError\<close> comes after the deletion: on a service that holds the collection
  \<open>products\<close>, the call asks whether it exists, deletes it, and only then fails. The
  collection is gone.
\<close>

theorem recreate_quantized_without_config_deletes_first:
  "fst (recreate_collection default_manager ''products'' ''quantized'' None service_with_products)
     = Some (ValueError Quantization_config_required)
   \<and> calls (snd (recreate_collection default_manager ''products'' ''quantized'' None
                    service_with_products))
       = [Collection_exists ''products'', Delete_collection ''products'']
   \<and> collections service_with_products ''products'' = Some products_collection
   \<and> collections (snd (recreate_collection default_manager ''products'' ''quantized'' None
                          service_with_products)) ''products''
       = None"
  by (simp add: recreate_collection_def delete_collection_def client_collection_exists_def
      client_delete_collection_def service_with_products_def)

end
